theory Spec2Isabelle
  imports Main
begin

section \<open>Values decoded from the catalog API\<close>

text \<open>
  The collector works on what \<^verbatim>\<open>response.json()\<close> returns: Python dicts, lists, strings,
  numbers, booleans and None. A dict is an association list in key order; a lookup takes the
  first binding of a key. A Python \<^verbatim>\<open>str\<close> is a \<^typ>\<open>string\<close> whose characters are read as the
  code points 0 to 255; texts with code points above 255 are not represented. Numbers are integers: a float takes the same branches as an integer
  in every function below (it is true when nonzero, has no \<^verbatim>\<open>get\<close>, is not iterable and is no
  string).
\<close>

datatype json =
    JNull
  | JBool bool
  | JNum int
  | JStr string
  | JList "json list"
  | JDict "(string \<times> json) list"

text \<open>The exceptions the modelled code can raise, as values.\<close>

datatype error =
    AttributeError
  | TypeError
  | KeyError
  | ValidationError
  | ConnectionError
  | HTTPError nat
  | JSONDecodeError
  | GraphQLError json

text \<open>Sequencing of calls that may raise: the first exception ends the computation.\<close>

definition ebind :: "error + 'a \<Rightarrow> ('a \<Rightarrow> error + 'b) \<Rightarrow> error + 'b" where
  "ebind m f = (case m of Inl e \<Rightarrow> Inl e | Inr x \<Rightarrow> f x)"

text \<open>Python truthiness (\<^verbatim>\<open>if x\<close>, \<^verbatim>\<open>not x\<close>).\<close>

fun truthy :: "json \<Rightarrow> bool" where
  "truthy JNull = False"
| "truthy (JBool b) = b"
| "truthy (JNum n) = (n \<noteq> 0)"
| "truthy (JStr s) = (s \<noteq> [])"
| "truthy (JList xs) = (xs \<noteq> [])"
| "truthy (JDict kvs) = (kvs \<noteq> [])"

text \<open>\<^verbatim>\<open>x.get(key, default)\<close>: only a dict has the method.\<close>

fun py_get :: "json \<Rightarrow> string \<Rightarrow> json \<Rightarrow> error + json" where
  "py_get (JDict kvs) k d = Inr (case map_of kvs k of None \<Rightarrow> d | Some v \<Rightarrow> v)"
| "py_get _ k d = Inl AttributeError"

text \<open>
  \<^verbatim>\<open>for x in v\<close>: a list yields its elements, a dict its keys, a string its characters;
  None, a boolean and a number are not iterable.
\<close>

fun py_iter :: "json \<Rightarrow> error + json list" where
  "py_iter (JList xs) = Inr xs"
| "py_iter (JDict kvs) = Inr (map (\<lambda>kv. JStr (fst kv)) kvs)"
| "py_iter (JStr s) = Inr (map (\<lambda>c. JStr [c]) s)"
| "py_iter _ = Inl TypeError"

section \<open>HTML stripping: \<^verbatim>\<open>ProductCollector._clean_html\<close>\<close>

text \<open>
  \<^verbatim>\<open>re.sub("<.*?>", "", html)\<close> scans from the left. At a \<^verbatim>\<open><\<close> the pattern matches up to
  the nearest following \<^verbatim>\<open>>\<close>; \<^verbatim>\<open>.\<close> matches every character but the line feed, so there is
  no match at this \<^verbatim>\<open><\<close> when a line feed comes first. \<open>tag_end\<close> takes the text after a
  \<^verbatim>\<open><\<close> and returns what follows the match.
\<close>

fun tag_end :: "string \<Rightarrow> string option" where
  "tag_end [] = None"
| "tag_end (c # cs) =
     (if c = CHR ''>'' then Some cs
      else if c = CHR 0x0A then None
      else tag_end cs)"

lemma tag_end_length: "tag_end cs = Some r \<Longrightarrow> length r < length cs"
  by (induction cs) (auto split: if_splits)

function remove_tags :: "string \<Rightarrow> string" where
  "remove_tags [] = []"
| "remove_tags (c # cs) =
     (if c = CHR ''<'' then
        (case tag_end cs of
           Some r \<Rightarrow> remove_tags r
         | None \<Rightarrow> c # remove_tags cs)
      else c # remove_tags cs)"
  by pat_completeness auto
termination
  by (relation "measure length") (auto dest: tag_end_length)

text \<open>
  \<^verbatim>\<open>\s\<close> in a str pattern and \<^verbatim>\<open>str.strip()\<close> use the same whitespace test; below code point
  256 it holds of 9 to 13, 28 to 32, 133 and 160.
\<close>

definition is_space :: "char \<Rightarrow> bool" where
  "is_space c =
     (let n = (of_char c :: nat)
      in (9 \<le> n \<and> n \<le> 13) \<or> (28 \<le> n \<and> n \<le> 32) \<or> n = 133 \<or> n = 160)"

text \<open>\<^verbatim>\<open>re.sub(r"\s+", " ", text)\<close>: each maximal run of whitespace becomes one space.\<close>

function collapse_ws :: "string \<Rightarrow> string" where
  "collapse_ws [] = []"
| "collapse_ws (c # cs) =
     (if is_space c then CHR '' '' # collapse_ws (dropWhile is_space cs)
      else c # collapse_ws cs)"
  by pat_completeness auto
termination
  by (relation "measure length") (auto simp: length_dropWhile_le less_Suc_eq_le)

definition strip :: "string \<Rightarrow> string" where
  "strip s = rev (dropWhile is_space (rev (dropWhile is_space s)))"

text \<open>
  \<^verbatim>\<open>_clean_html\<close>: a false value (None, the empty string, 0, an empty container) gives the
  empty string; \<^verbatim>\<open>re.sub\<close> raises TypeError on anything else that is not a string.
\<close>

fun clean_html :: "json \<Rightarrow> error + string" where
  "clean_html (JStr s) =
     (if s = [] then Inr [] else Inr (strip (collapse_ws (remove_tags s))))"
| "clean_html v = (if truthy v then Inl TypeError else Inr [])"

text \<open>
  The specification's wording of the same function, for comparison: every span from a
  \<^verbatim>\<open><\<close> to the nearest following \<^verbatim>\<open>>\<close> is removed, whatever lies between; then runs of
  whitespace are collapsed and the ends trimmed.
\<close>

fun span_end :: "string \<Rightarrow> string option" where
  "span_end [] = None"
| "span_end (c # cs) = (if c = CHR ''>'' then Some cs else span_end cs)"

lemma span_end_length: "span_end cs = Some r \<Longrightarrow> length r < length cs"
  by (induction cs) (auto split: if_splits)

function remove_spans :: "string \<Rightarrow> string" where
  "remove_spans [] = []"
| "remove_spans (c # cs) =
     (if c = CHR ''<'' then
        (case span_end cs of
           Some r \<Rightarrow> remove_spans r
         | None \<Rightarrow> c # remove_spans cs)
      else c # remove_spans cs)"
  by pat_completeness auto
termination
  by (relation "measure length") (auto dest: span_end_length)

definition strip_html_spec :: "string \<Rightarrow> string" where
  "strip_html_spec s = strip (collapse_ws (remove_spans s))"

text \<open>
  What can be observed of a result: \<open>has_span\<close> holds of a text with a \<^verbatim>\<open><\<close> and a later
  \<^verbatim>\<open>>\<close>; \<open>has_tag\<close> of a text in which the pattern \<^verbatim>\<open><.*?>\<close> still matches somewhere;
  \<open>ws_collapsed\<close> of a text whose only whitespace is single spaces, no two adjacent;
  \<open>trimmed\<close> of a text that neither starts nor ends with whitespace.
\<close>

fun has_span :: "string \<Rightarrow> bool" where
  "has_span [] = False"
| "has_span (c # cs) = ((c = CHR ''<'' \<and> CHR ''>'' \<in> set cs) \<or> has_span cs)"

fun has_tag :: "string \<Rightarrow> bool" where
  "has_tag [] = False"
| "has_tag (c # cs) = ((c = CHR ''<'' \<and> tag_end cs \<noteq> None) \<or> has_tag cs)"

fun ws_collapsed :: "string \<Rightarrow> bool" where
  "ws_collapsed [] = True"
| "ws_collapsed [c] = (if is_space c then c = CHR '' '' else True)"
| "ws_collapsed (c # d # cs) =
     ((if is_space c then c = CHR '' '' \<and> \<not> is_space d else True) \<and> ws_collapsed (d # cs))"

definition trimmed :: "string \<Rightarrow> bool" where
  "trimmed t = (if t = [] then True else \<not> is_space (hd t) \<and> \<not> is_space (last t))"

section \<open>Field extraction: \<^verbatim>\<open>_extract_specs\<close>, \<^verbatim>\<open>_extract_prices\<close>, \<^verbatim>\<open>_extract_technologies\<close>, \<^verbatim>\<open>_extract_features\<close>\<close>

text \<open>
  The pydantic schemas of \<^verbatim>\<open>madshus/schemas/product.py\<close>. Constructing one validates its
  fields, here as pydantic 2 does (the schemas use its \<^verbatim>\<open>from_attributes\<close> setting), which
  does not turn a number into a string: a \<^verbatim>\<open>str\<close> field takes a string only, an \<^verbatim>\<open>Optional[str]\<close> field a string or None, and
  \<^verbatim>\<open>Optional[Union[str, List[str]]]\<close> a string, a list of strings or None; anything else
  raises ValidationError.
\<close>

datatype spec_value = VNone | VStr string | VList "string list"

record ProductSpecSchema =
  ss_spec_id :: string
  ss_title :: string
  ss_value :: spec_value

record ProductTechnologySchema =
  ts_title :: string
  ts_content :: string

record ProductFeatureSchema =
  fs_group_title :: "string option"
  fs_content :: string

fun validate_str :: "json \<Rightarrow> error + string" where
  "validate_str (JStr s) = Inr s"
| "validate_str _ = Inl ValidationError"

fun validate_opt_str :: "json \<Rightarrow> error + string option" where
  "validate_opt_str JNull = Inr None"
| "validate_opt_str (JStr s) = Inr (Some s)"
| "validate_opt_str _ = Inl ValidationError"

fun validate_str_list :: "json list \<Rightarrow> error + string list" where
  "validate_str_list [] = Inr []"
| "validate_str_list (x # xs) =
     ebind (validate_str x) (\<lambda>s. ebind (validate_str_list xs) (\<lambda>ss. Inr (s # ss)))"

fun validate_value :: "json \<Rightarrow> error + spec_value" where
  "validate_value JNull = Inr VNone"
| "validate_value (JStr s) = Inr (VStr s)"
| "validate_value (JList xs) = ebind (validate_str_list xs) (\<lambda>ss. Inr (VList ss))"
| "validate_value _ = Inl ValidationError"

definition new_ProductSpecSchema :: "json \<Rightarrow> json \<Rightarrow> json \<Rightarrow> error + ProductSpecSchema" where
  "new_ProductSpecSchema spec_id title val =
     ebind (validate_str spec_id) (\<lambda>i.
     ebind (validate_str title) (\<lambda>t.
     ebind (validate_value val) (\<lambda>v.
       Inr \<lparr>ss_spec_id = i, ss_title = t, ss_value = v\<rparr>)))"

definition new_ProductTechnologySchema :: "json \<Rightarrow> string \<Rightarrow> error + ProductTechnologySchema" where
  "new_ProductTechnologySchema title content =
     ebind (validate_str title) (\<lambda>t. Inr \<lparr>ts_title = t, ts_content = content\<rparr>)"

definition new_ProductFeatureSchema :: "json \<Rightarrow> json \<Rightarrow> error + ProductFeatureSchema" where
  "new_ProductFeatureSchema group_title content =
     ebind (validate_opt_str group_title) (\<lambda>g.
     ebind (validate_str content) (\<lambda>c.
       Inr \<lparr>fs_group_title = g, fs_content = c\<rparr>))"

text \<open>
  A \<^verbatim>\<open>for\<close> loop that appends to a result list and may raise: \<open>collect f xs\<close> runs \<open>f\<close> on
  each element in order, \<open>f\<close> returning the rows that iteration appends.
\<close>

fun collect :: "('a \<Rightarrow> error + 'b list) \<Rightarrow> 'a list \<Rightarrow> error + 'b list" where
  "collect f [] = Inr []"
| "collect f (x # xs) = ebind (f x) (\<lambda>ys. ebind (collect f xs) (\<lambda>zs. Inr (ys @ zs)))"

text \<open>\<^verbatim>\<open>_extract_specs\<close>: the body of the loop, then the function.\<close>

definition extract_spec :: "json \<Rightarrow> error + ProductSpecSchema list" where
  "extract_spec spec =
     ebind (py_get spec ''id'' (JStr [])) (\<lambda>spec_id.
     ebind (py_get spec ''title'' (JStr [])) (\<lambda>title.
     ebind (py_get spec ''value'' (JStr [])) (\<lambda>val.
       if truthy spec_id \<and> truthy title
       then ebind (new_ProductSpecSchema spec_id title val) (\<lambda>s. Inr [s])
       else Inr [])))"

definition extract_specs :: "json \<Rightarrow> error + ProductSpecSchema list" where
  "extract_specs product_data =
     ebind (py_get product_data ''updated_product_specs'' (JList [])) (\<lambda>updated_product_specs.
     ebind (py_iter updated_product_specs) (\<lambda>specs.
       collect extract_spec specs))"

text \<open>
  \<^verbatim>\<open>_extract_prices\<close> copies the \<^verbatim>\<open>prices\<close> dict entry by entry; \<^verbatim>\<open>items()\<close> exists on a dict
  only, and an assignment to a key that is already there replaces its value in place.
\<close>

fun py_items :: "json \<Rightarrow> error + (string \<times> json) list" where
  "py_items (JDict kvs) = Inr kvs"
| "py_items _ = Inl AttributeError"

fun dict_set :: "(string \<times> json) list \<Rightarrow> string \<Rightarrow> json \<Rightarrow> (string \<times> json) list" where
  "dict_set [] k v = [(k, v)]"
| "dict_set ((k', v') # kvs) k v =
     (if k' = k then (k, v) # kvs else (k', v') # dict_set kvs k v)"

definition extract_prices :: "json \<Rightarrow> error + (string \<times> json) list" where
  "extract_prices product_data =
     ebind (py_get product_data ''prices'' (JDict [])) (\<lambda>prices_data.
     ebind (py_items prices_data) (\<lambda>items.
       Inr (foldl (\<lambda>prices (region, price). dict_set prices region price) [] items)))"

text \<open>
  \<^verbatim>\<open>_extract_technologies\<close>: \<open>extract_technology\<close> is the body shared by the list branch (once
  per element) and the dict branch; the content is cleaned before the title is tested.
  A value that is neither a list nor a dict gives no technology.
\<close>

definition extract_technology :: "json \<Rightarrow> error + ProductTechnologySchema list" where
  "extract_technology tech =
     ebind (py_get tech ''title'' (JStr [])) (\<lambda>title.
     ebind (py_get tech ''content'' (JStr [])) (\<lambda>c.
     ebind (clean_html c) (\<lambda>content.
       if truthy title
       then ebind (new_ProductTechnologySchema title content) (\<lambda>t. Inr [t])
       else Inr [])))"

fun technologies_of :: "json \<Rightarrow> error + ProductTechnologySchema list" where
  "technologies_of (JList techs) = collect extract_technology techs"
| "technologies_of (JDict kvs) = extract_technology (JDict kvs)"
| "technologies_of _ = Inr []"

definition extract_technologies :: "json \<Rightarrow> error + ProductTechnologySchema list" where
  "extract_technologies product_data =
     ebind (py_get product_data ''details'' (JDict [])) (\<lambda>details.
     ebind (py_get details ''technology'' (JList [])) (\<lambda>technology_data.
       technologies_of technology_data))"

text \<open>\<^verbatim>\<open>_extract_features\<close>: the inner loop body, the outer loop body, the function.\<close>

definition extract_feature :: "json \<Rightarrow> json \<Rightarrow> error + ProductFeatureSchema list" where
  "extract_feature group_title feature =
     ebind (py_get feature ''content'' (JStr [])) (\<lambda>content.
       if truthy content
       then ebind (new_ProductFeatureSchema group_title content) (\<lambda>f. Inr [f])
       else Inr [])"

definition extract_feature_group :: "json \<Rightarrow> error + ProductFeatureSchema list" where
  "extract_feature_group feature_group =
     ebind (py_get feature_group ''group_title'' (JStr [])) (\<lambda>group_title.
     ebind (py_get feature_group ''group'' (JList [])) (\<lambda>group.
     ebind (py_iter group) (\<lambda>features.
       collect (extract_feature group_title) features)))"

definition extract_features :: "json \<Rightarrow> error + ProductFeatureSchema list" where
  "extract_features product_data =
     ebind (py_get product_data ''details'' (JDict [])) (\<lambda>details.
     ebind (py_get details ''feature_details'' (JList [])) (\<lambda>feature_details.
     ebind (py_iter feature_details) (\<lambda>groups.
       collect extract_feature_group groups)))"

text \<open>
  What the feature extraction is to return, for comparison, as one expression over the
  payload: \<open>feature_items\<close> lists every item of every group in payload order, as the pair of
  its group's title and its own content; \<open>flattened_features\<close> keeps the items whose content
  is a true value and makes each a row with that title and that content. \<open>field\<close> and
  \<open>elements\<close> read a dict and a list and give the default, or no element, on anything else.
\<close>

fun field :: "json \<Rightarrow> string \<Rightarrow> json \<Rightarrow> json" where
  "field (JDict kvs) k d = (case map_of kvs k of None \<Rightarrow> d | Some v \<Rightarrow> v)"
| "field _ k d = d"

fun elements :: "json \<Rightarrow> json list" where
  "elements (JList xs) = xs"
| "elements _ = []"

fun text_of :: "json \<Rightarrow> string" where
  "text_of (JStr s) = s"
| "text_of _ = []"

fun opt_text_of :: "json \<Rightarrow> string option" where
  "opt_text_of (JStr s) = Some s"
| "opt_text_of _ = None"

definition feature_items :: "json \<Rightarrow> (json \<times> json) list" where
  "feature_items product_data =
     concat (map (\<lambda>g. map (\<lambda>i. (field g ''group_title'' (JStr []), field i ''content'' (JStr [])))
                          (elements (field g ''group'' (JList []))))
                 (elements (field (field product_data ''details'' (JDict []))
                                  ''feature_details'' (JList []))))"

definition flattened_features :: "json \<Rightarrow> ProductFeatureSchema list" where
  "flattened_features product_data =
     map (\<lambda>tc. \<lparr>fs_group_title = opt_text_of (fst tc), fs_content = text_of (snd tc)\<rparr>)
         (filter (\<lambda>tc. truthy (snd tc)) (feature_items product_data))"

text \<open>The rows one item gives, by the same reading.\<close>

definition feature_item_rows :: "json \<Rightarrow> json \<Rightarrow> ProductFeatureSchema list" where
  "feature_item_rows t i =
     (let c = field i ''content'' (JStr [])
      in if truthy c then [\<lparr>fs_group_title = opt_text_of t, fs_content = text_of c\<rparr>] else [])"

text \<open>A payload with two feature groups, one of them with markup in a content.\<close>

definition features_payload :: json where
  "features_payload =
     JDict [(''details'', JDict [(''feature_details'', JList [
        JDict [(''group_title'', JStr ''Core''),
               (''group'', JList [JDict [(''content'', JStr ''<b>light</b>'')],
                                  JDict [(''content'', JStr [])],
                                  JDict [(''title'', JStr ''untitled'')]])],
        JDict [(''group_title'', JNull),
               (''group'', JList [JDict [(''content'', JStr ''stiff'')]])]])])]"

section \<open>The catalog client: \<^verbatim>\<open>GraphQLClient.execute\<close>\<close>

text \<open>
  What \<^verbatim>\<open>requests.post\<close> can do: fail to get a response (connection error, timeout), or
  return a response with a status code and a body, which decodes as JSON or does not.
\<close>

datatype http_result = NoResponse | Response nat "json option"

fun is_prefix :: "string \<Rightarrow> string \<Rightarrow> bool" where
  "is_prefix [] s = True"
| "is_prefix (c # cs) [] = False"
| "is_prefix (c # cs) (d # ds) = (c = d \<and> is_prefix cs ds)"

fun is_substring :: "string \<Rightarrow> string \<Rightarrow> bool" where
  "is_substring p [] = is_prefix p []"
| "is_substring p (c # cs) = (is_prefix p (c # cs) \<or> is_substring p cs)"

text \<open>
  \<^verbatim>\<open>"errors" in data\<close> is a key test on a dict, an element test on a list and a substring
  test on a string, and raises TypeError on the rest. \<^verbatim>\<open>data["errors"]\<close> is defined on a dict.
\<close>

fun contains_errors :: "json \<Rightarrow> error + bool" where
  "contains_errors (JDict kvs) = Inr (''errors'' \<in> set (map fst kvs))"
| "contains_errors (JList xs) = Inr (JStr ''errors'' \<in> set xs)"
| "contains_errors (JStr s) = Inr (is_substring ''errors'' s)"
| "contains_errors _ = Inl TypeError"

fun index_errors :: "json \<Rightarrow> error + json" where
  "index_errors (JDict kvs) =
     (case map_of kvs ''errors'' of None \<Rightarrow> Inl KeyError | Some v \<Rightarrow> Inr v)"
| "index_errors _ = Inl TypeError"

text \<open>
  \<^verbatim>\<open>execute\<close>: \<^verbatim>\<open>raise_for_status\<close> raises on a status from 400 to 599; the handler for
  \<^verbatim>\<open>RequestException\<close> logs and raises the same exception again.
\<close>

definition execute :: "http_result \<Rightarrow> error + json" where
  "execute r =
     (case r of
        NoResponse \<Rightarrow> Inl ConnectionError
      | Response status body \<Rightarrow>
          if 400 \<le> status \<and> status < 600 then Inl (HTTPError status)
          else (case body of
                  None \<Rightarrow> Inl JSONDecodeError
                | Some data \<Rightarrow>
                    ebind (contains_errors data) (\<lambda>has_errors.
                      if has_errors
                      then ebind (index_errors data) (\<lambda>errors. Inl (GraphQLError errors))
                      else Inr data)))"

text \<open>The errors of the transport, as opposed to the one the API reports in the body.\<close>

fun is_transport_error :: "error \<Rightarrow> bool" where
  "is_transport_error ConnectionError = True"
| "is_transport_error (HTTPError status) = True"
| "is_transport_error _ = False"

text \<open>
  The catalog as the collector sees it during one run: what the POST of the grid query of a
  category does, and what the POST of the detail query of a URL does. The same request gets
  the same outcome throughout a run. \<^verbatim>\<open>get_paginated_products\<close> and \<^verbatim>\<open>get_product\<close> pass
  the request to \<^verbatim>\<open>client.execute\<close>.
\<close>

record catalog =
  post_grid :: "int \<Rightarrow> http_result"
  post_detail :: "json \<Rightarrow> http_result"

definition get_paginated_products :: "catalog \<Rightarrow> int \<Rightarrow> error + json" where
  "get_paginated_products api category = execute (post_grid api category)"

definition get_product :: "catalog \<Rightarrow> json \<Rightarrow> error + json" where
  "get_product api url = execute (post_detail api url)"

section \<open>The database session\<close>

text \<open>
  The rows of \<^verbatim>\<open>madshus/models/product.py\<close>. The store keeps a value as the code hands it
  over and compares uids by equality; the surrogate \<^verbatim>\<open>id\<close> keys and the timestamps are left
  out, a table being the list of its rows in insertion order. Refusals of the storage engine
  (constraints, column types, lost connections) are not modelled: every write succeeds.
\<close>

record Product =
  p_uid :: json
  p_title :: json
  p_display_title :: json
  p_url :: json
  p_description :: json
  p_tagline :: json

record ProductSpec =
  ps_product_uid :: json
  ps_spec_id :: string
  ps_title :: string
  ps_value :: "string option"

record ProductPrice =
  pp_product_uid :: json
  pp_region :: string
  pp_price :: json

record ProductTechnology =
  pt_product_uid :: json
  pt_title :: string
  pt_content :: string

record ProductFeature =
  pf_product_uid :: json
  pf_group_title :: "string option"
  pf_content :: string

record tables =
  products :: "Product list"
  product_specs :: "ProductSpec list"
  product_prices :: "ProductPrice list"
  product_technologies :: "ProductTechnology list"
  product_features :: "ProductFeature list"

definition no_rows :: tables where
  "no_rows = \<lparr>products = [], product_specs = [], product_prices = [], product_technologies = [], product_features = []\<rparr>"

text \<open>
  The session of \<^verbatim>\<open>madshus/database/session.py\<close> is made with \<^verbatim>\<open>autocommit=False\<close> and
  \<^verbatim>\<open>autoflush=False\<close>. Three layers are told apart:
  \<^item> \<open>committed\<close>: what the database holds durably;
  \<^item> \<open>txn\<close>: what the open transaction sees, that is the committed rows with the statements
    sent since the last commit applied, and with the attribute assignments made on loaded
    products (SQLAlchemy sends those with the next flush; every read in between goes through
    the same loaded object);
  \<^item> \<open>pending\<close>: the objects given to \<^verbatim>\<open>db.add\<close> and not flushed yet.
  \<^verbatim>\<open>flush\<close> sends the pending objects, \<^verbatim>\<open>commit\<close> flushes and makes the transaction durable.
  A bulk \<^verbatim>\<open>query(...).filter(...).delete()\<close> is a statement: it acts on \<open>txn\<close> at once and
  does not touch pending objects. The collector never calls \<^verbatim>\<open>rollback\<close>.
\<close>

record session =
  committed :: tables
  txn :: tables
  pending :: tables

definition db_add_product :: "Product \<Rightarrow> session \<Rightarrow> session" where
  "db_add_product x s = s\<lparr>pending := (pending s)\<lparr>products := products (pending s) @ [x]\<rparr>\<rparr>"

definition db_add_spec :: "ProductSpec \<Rightarrow> session \<Rightarrow> session" where
  "db_add_spec x s = s\<lparr>pending := (pending s)\<lparr>product_specs := product_specs (pending s) @ [x]\<rparr>\<rparr>"

definition db_add_price :: "ProductPrice \<Rightarrow> session \<Rightarrow> session" where
  "db_add_price x s = s\<lparr>pending := (pending s)\<lparr>product_prices := product_prices (pending s) @ [x]\<rparr>\<rparr>"

definition db_add_technology :: "ProductTechnology \<Rightarrow> session \<Rightarrow> session" where
  "db_add_technology x s =
     s\<lparr>pending := (pending s)\<lparr>product_technologies := product_technologies (pending s) @ [x]\<rparr>\<rparr>"

definition db_add_feature :: "ProductFeature \<Rightarrow> session \<Rightarrow> session" where
  "db_add_feature x s = s\<lparr>pending := (pending s)\<lparr>product_features := product_features (pending s) @ [x]\<rparr>\<rparr>"

definition db_flush :: "session \<Rightarrow> session" where
  "db_flush s =
     s\<lparr>txn := \<lparr>products = products (txn s) @ products (pending s),
                product_specs = product_specs (txn s) @ product_specs (pending s),
                product_prices = product_prices (txn s) @ product_prices (pending s),
                product_technologies = product_technologies (txn s) @ product_technologies (pending s),
                product_features = product_features (txn s) @ product_features (pending s)\<rparr>,
       pending := no_rows\<rparr>"

definition db_commit :: "session \<Rightarrow> session" where
  "db_commit s = (let s' = db_flush s in s'\<lparr>committed := txn s'\<rparr>)"

definition db_delete_specs :: "json \<Rightarrow> session \<Rightarrow> session" where
  "db_delete_specs u s =
     s\<lparr>txn := (txn s)\<lparr>product_specs := filter (\<lambda>x. ps_product_uid x \<noteq> u) (product_specs (txn s))\<rparr>\<rparr>"

definition db_delete_prices :: "json \<Rightarrow> session \<Rightarrow> session" where
  "db_delete_prices u s =
     s\<lparr>txn := (txn s)\<lparr>product_prices := filter (\<lambda>x. pp_product_uid x \<noteq> u) (product_prices (txn s))\<rparr>\<rparr>"

definition db_delete_technologies :: "json \<Rightarrow> session \<Rightarrow> session" where
  "db_delete_technologies u s =
     s\<lparr>txn := (txn s)\<lparr>product_technologies :=
        filter (\<lambda>x. pt_product_uid x \<noteq> u) (product_technologies (txn s))\<rparr>\<rparr>"

definition db_delete_features :: "json \<Rightarrow> session \<Rightarrow> session" where
  "db_delete_features u s =
     s\<lparr>txn := (txn s)\<lparr>product_features := filter (\<lambda>x. pf_product_uid x \<noteq> u) (product_features (txn s))\<rparr>\<rparr>"

text \<open>An attribute assignment on the loaded product with uid \<open>u\<close>.\<close>

definition db_assign :: "json \<Rightarrow> (Product \<Rightarrow> Product) \<Rightarrow> session \<Rightarrow> session" where
  "db_assign u f s =
     s\<lparr>txn := (txn s)\<lparr>products :=
        map (\<lambda>q. if p_uid q = u then f q else q) (products (txn s))\<rparr>\<rparr>"

text \<open>
  A value can be a member of a Python set, or a bound parameter of a query, when it is
  neither a list nor a dict.
\<close>

fun hashable :: "json \<Rightarrow> bool" where
  "hashable (JList xs) = False"
| "hashable (JDict kvs) = False"
| "hashable _ = True"

text \<open>
  \<^verbatim>\<open>db.query(Product).filter(Product.uid == uid).first()\<close>: None or the first product of the
  transaction's view with this uid. A list or a dict cannot be bound as the parameter, and
  the query raises; the exception is SQLAlchemy's or the driver's, written TypeError here,
  and \<^verbatim>\<open>collect_product\<close> handles every exception alike.
\<close>

definition db_find :: "json \<Rightarrow> session \<Rightarrow> error + Product option" where
  "db_find u s =
     (if hashable u then Inr (find (\<lambda>q. p_uid q = u) (products (txn s))) else Inl TypeError)"

text \<open>
  Code that changes the session and may raise: the session comes back in either case, as far
  as the code got.
\<close>

type_synonym 'a action = "session \<Rightarrow> session \<times> (error + 'a)"

definition lift :: "error + 'a \<Rightarrow> 'a action" where
  "lift r s = (s, r)"

definition effect :: "(session \<Rightarrow> session) \<Rightarrow> unit action" where
  "effect f s = (f s, Inr ())"

definition sbind :: "'a action \<Rightarrow> ('a \<Rightarrow> 'b action) \<Rightarrow> 'b action" where
  "sbind m f s = (case m s of (s', Inl e) \<Rightarrow> (s', Inl e) | (s', Inr x) \<Rightarrow> f x s')"

section \<open>Upsert: \<^verbatim>\<open>_create_product\<close> and \<^verbatim>\<open>_update_product\<close>\<close>

text \<open>\<^verbatim>\<open>", ".join(xs)\<close>.\<close>

fun join_comma :: "string list \<Rightarrow> string" where
  "join_comma [] = []"
| "join_comma [s] = s"
| "join_comma (s # t # ss) = s @ '', '' @ join_comma (t # ss)"

text \<open>
  The value column of a spec row:
  \<^verbatim>\<open>spec.value if isinstance(spec.value, str) else ", ".join(spec.value) if spec.value else None\<close>.
\<close>

fun spec_row_value :: "spec_value \<Rightarrow> string option" where
  "spec_row_value (VStr s) = Some s"
| "spec_row_value (VList ss) = (if ss \<noteq> [] then Some (join_comma ss) else None)"
| "spec_row_value VNone = None"

definition spec_row :: "json \<Rightarrow> ProductSpecSchema \<Rightarrow> ProductSpec" where
  "spec_row u spec =
     \<lparr>ps_product_uid = u, ps_spec_id = ss_spec_id spec, ps_title = ss_title spec,
      ps_value = spec_row_value (ss_value spec)\<rparr>"

definition price_row :: "json \<Rightarrow> string \<times> json \<Rightarrow> ProductPrice" where
  "price_row u rp = \<lparr>pp_product_uid = u, pp_region = fst rp, pp_price = snd rp\<rparr>"

definition technology_row :: "json \<Rightarrow> ProductTechnologySchema \<Rightarrow> ProductTechnology" where
  "technology_row u tech = \<lparr>pt_product_uid = u, pt_title = ts_title tech, pt_content = ts_content tech\<rparr>"

definition feature_row :: "json \<Rightarrow> ProductFeatureSchema \<Rightarrow> ProductFeature" where
  "feature_row u feature =
     \<lparr>pf_product_uid = u, pf_group_title = fs_group_title feature, pf_content = fs_content feature\<rparr>"

text \<open>The four \<^verbatim>\<open>for\<close> statements that add the child rows; a price is added when it is a true value.\<close>

definition add_specs :: "json \<Rightarrow> ProductSpecSchema list \<Rightarrow> session \<Rightarrow> session" where
  "add_specs u specs s = foldl (\<lambda>s spec. db_add_spec (spec_row u spec) s) s specs"

definition add_prices :: "json \<Rightarrow> (string \<times> json) list \<Rightarrow> session \<Rightarrow> session" where
  "add_prices u prices s =
     foldl (\<lambda>s rp. if truthy (snd rp) then db_add_price (price_row u rp) s else s) s prices"

definition add_technologies :: "json \<Rightarrow> ProductTechnologySchema list \<Rightarrow> session \<Rightarrow> session" where
  "add_technologies u technologies s =
     foldl (\<lambda>s tech. db_add_technology (technology_row u tech) s) s technologies"

definition add_features :: "json \<Rightarrow> ProductFeatureSchema list \<Rightarrow> session \<Rightarrow> session" where
  "add_features u features s =
     foldl (\<lambda>s feature. db_add_feature (feature_row u feature) s) s features"

text \<open>The part both upserts share: extract and add the four child sets, commit.\<close>

definition insert_children :: "json \<Rightarrow> json \<Rightarrow> unit action" where
  "insert_children u product_data =
     sbind (lift (extract_specs product_data)) (\<lambda>specs.
     sbind (effect (add_specs u specs)) (\<lambda>_.
     sbind (lift (extract_prices product_data)) (\<lambda>prices.
     sbind (effect (add_prices u prices)) (\<lambda>_.
     sbind (lift (extract_technologies product_data)) (\<lambda>technologies.
     sbind (effect (add_technologies u technologies)) (\<lambda>_.
     sbind (lift (extract_features product_data)) (\<lambda>features.
     sbind (effect (add_features u features)) (\<lambda>_.
       effect db_commit))))))))"

definition create_product :: "json \<Rightarrow> json action" where
  "create_product product_data =
     sbind (lift (py_get product_data ''uid'' JNull)) (\<lambda>uid.
     sbind (lift (py_get product_data ''title'' (JStr []))) (\<lambda>title.
     sbind (lift (py_get product_data ''display_title'' (JStr []))) (\<lambda>display_title.
     sbind (lift (py_get product_data ''url'' (JStr []))) (\<lambda>url.
     sbind (lift (ebind (py_get product_data ''description'' (JStr [])) clean_html)) (\<lambda>description.
     sbind (lift (py_get product_data ''tagline'' (JStr []))) (\<lambda>tagline.
     sbind (effect (db_add_product
              \<lparr>p_uid = uid, p_title = title, p_display_title = display_title, p_url = url,
               p_description = JStr description, p_tagline = tagline\<rparr>)) (\<lambda>_.
     sbind (effect db_flush) (\<lambda>_.
     sbind (insert_children uid product_data) (\<lambda>_.
       lift (Inr uid))))))))))"

text \<open>
  \<^verbatim>\<open>_update_product\<close>: the five assignments, each reading the payload with the loaded
  product's attribute as the default; the four bulk deletes; then as for a new product.
\<close>

definition update_product :: "Product \<Rightarrow> json \<Rightarrow> json action" where
  "update_product product product_data =
     sbind (lift (py_get product_data ''title'' (p_title product))) (\<lambda>title.
     sbind (effect (db_assign (p_uid product) (\<lambda>q. q\<lparr>p_title := title\<rparr>))) (\<lambda>_.
     sbind (lift (py_get product_data ''display_title'' (p_display_title product))) (\<lambda>display_title.
     sbind (effect (db_assign (p_uid product) (\<lambda>q. q\<lparr>p_display_title := display_title\<rparr>))) (\<lambda>_.
     sbind (lift (py_get product_data ''url'' (p_url product))) (\<lambda>url.
     sbind (effect (db_assign (p_uid product) (\<lambda>q. q\<lparr>p_url := url\<rparr>))) (\<lambda>_.
     sbind (lift (ebind (py_get product_data ''description'' (p_description product)) clean_html))
       (\<lambda>description.
     sbind (effect (db_assign (p_uid product) (\<lambda>q. q\<lparr>p_description := JStr description\<rparr>))) (\<lambda>_.
     sbind (lift (py_get product_data ''tagline'' (p_tagline product))) (\<lambda>tagline.
     sbind (effect (db_assign (p_uid product) (\<lambda>q. q\<lparr>p_tagline := tagline\<rparr>))) (\<lambda>_.
     sbind (effect (db_delete_specs (p_uid product))) (\<lambda>_.
     sbind (effect (db_delete_prices (p_uid product))) (\<lambda>_.
     sbind (effect (db_delete_technologies (p_uid product))) (\<lambda>_.
     sbind (effect (db_delete_features (p_uid product))) (\<lambda>_.
     sbind (insert_children (p_uid product) product_data) (\<lambda>_.
       lift (Inr (p_uid product)))))))))))))))))"

text \<open>
  Names for two stretches of \<^verbatim>\<open>_update_product\<close>: the session after the five assignments,
  and after the four bulk deletes.
\<close>

definition assigned :: "Product \<Rightarrow> json \<Rightarrow> json \<Rightarrow> json \<Rightarrow> string \<Rightarrow> json \<Rightarrow> session \<Rightarrow> session" where
  "assigned product t dt ur d tg s =
     db_assign (p_uid product) (\<lambda>q. q\<lparr>p_tagline := tg\<rparr>)
       (db_assign (p_uid product) (\<lambda>q. q\<lparr>p_description := JStr d\<rparr>)
         (db_assign (p_uid product) (\<lambda>q. q\<lparr>p_url := ur\<rparr>)
           (db_assign (p_uid product) (\<lambda>q. q\<lparr>p_display_title := dt\<rparr>)
             (db_assign (p_uid product) (\<lambda>q. q\<lparr>p_title := t\<rparr>) s))))"

definition deleted :: "json \<Rightarrow> session \<Rightarrow> session" where
  "deleted u s = db_delete_features u (db_delete_technologies u (db_delete_prices u (db_delete_specs u s)))"

section \<open>\<^verbatim>\<open>ProductCollector.collect_product\<close>\<close>

text \<open>
  The body of the \<^verbatim>\<open>try\<close>, then the function: the handler turns every exception into the
  result None, and the session stays as the body left it.
\<close>

definition collect_product_body :: "catalog \<Rightarrow> json \<Rightarrow> json option action" where
  "collect_product_body api url =
     sbind (lift (get_product api url)) (\<lambda>response.
     sbind (lift (ebind (py_get response ''data'' (JDict [])) (\<lambda>data.
                  py_get data ''product'' (JDict [])))) (\<lambda>product_data.
       if \<not> truthy product_data then lift (Inr None)
       else
         sbind (lift (py_get product_data ''uid'' JNull)) (\<lambda>uid.
           if \<not> truthy uid then lift (Inr None)
           else
             sbind (\<lambda>s. (s, db_find uid s)) (\<lambda>existing_product.
               case existing_product of
                 Some product \<Rightarrow>
                   sbind (update_product product product_data) (\<lambda>u. lift (Inr (Some u)))
               | None \<Rightarrow>
                   sbind (create_product product_data) (\<lambda>u. lift (Inr (Some u)))))))"

definition collect_product :: "catalog \<Rightarrow> json \<Rightarrow> session \<Rightarrow> session \<times> json option" where
  "collect_product api url s =
     (case collect_product_body api url s of
        (s', Inl e) \<Rightarrow> (s', None)
      | (s', Inr uid) \<Rightarrow> (s', uid))"

section \<open>\<^verbatim>\<open>ProductCollector.collect_products\<close>\<close>

text \<open>
  The state of a run: the session, the two sets of the method, and a record of what the run
  did, which the code does not keep: the URLs \<^verbatim>\<open>collect_product\<close> was called with, the uids
  these calls returned, and the categories whose grid was requested, each in order.
  A Python set is the list of its members in insertion order, without repetition; the order
  in which \<^verbatim>\<open>list(collected_uids)\<close> enumerates the set is not fixed by the code, and nothing
  below depends on it. Members are compared as JSON values (Python would also take
  \<^verbatim>\<open>True\<close> and \<^verbatim>\<open>1\<close> for one member).
\<close>

record run =
  db :: session
  collected_uids :: "json list"
  product_urls :: "json list"
  detail_calls :: "json list"
  returned_uids :: "json list"
  grid_calls :: "int list"

definition set_add :: "json \<Rightarrow> json list \<Rightarrow> json list" where
  "set_add x xs = (if x \<in> set xs then xs else xs @ [x])"

text \<open>\<^verbatim>\<open>limit and len(collected_uids) >= limit\<close>, the limit being None or an integer.\<close>

definition limit_reached :: "int option \<Rightarrow> run \<Rightarrow> bool" where
  "limit_reached limit r =
     (case limit of
        None \<Rightarrow> False
      | Some n \<Rightarrow> n \<noteq> 0 \<and> int (length (collected_uids r)) \<ge> n)"

text \<open>
  One product that is neither skipped nor stops the loop: the URL is marked, \<^verbatim>\<open>collect_product\<close>
  is called, a true uid is added to the result (\<^verbatim>\<open>add\<close> raises TypeError on a list or dict,
  which the inner handler logs).
\<close>

definition visit :: "catalog \<Rightarrow> json \<Rightarrow> run \<Rightarrow> run" where
  "visit api url r =
     (let (s', result) = collect_product api url (db r);
          r' = r\<lparr>db := s',
                 product_urls := set_add url (product_urls r),
                 detail_calls := detail_calls r @ [url],
                 returned_uids := returned_uids r @ (case result of None \<Rightarrow> [] | Some uid \<Rightarrow> [uid])\<rparr>
      in case result of
           None \<Rightarrow> r'
         | Some uid \<Rightarrow>
             if truthy uid \<and> hashable uid
             then r'\<lparr>collected_uids := set_add uid (collected_uids r')\<rparr>
             else r')"

text \<open>
  The loop over the products of one grid. It ends at the end of the list, at the
  \<^verbatim>\<open>break\<close>, and where an exception leaves it for the handler of the category:
  \<^verbatim>\<open>product_data.get\<close> on something that is no dict, \<^verbatim>\<open>url in product_urls\<close> on a list or dict.
\<close>

fun product_loop :: "catalog \<Rightarrow> int option \<Rightarrow> json list \<Rightarrow> run \<Rightarrow> run" where
  "product_loop api limit [] r = r"
| "product_loop api limit (product_data # rest) r =
     (if limit_reached limit r then r
      else (case py_get product_data ''url'' JNull of
              Inl e \<Rightarrow> r
            | Inr url \<Rightarrow>
                if \<not> truthy url then product_loop api limit rest r
                else if \<not> hashable url then r
                else if url \<in> set (product_urls r) then product_loop api limit rest r
                else product_loop api limit rest (visit api url r)))"

text \<open>
  One category: the grid request, the three \<^verbatim>\<open>get\<close>s down to the product list, the loop.
  Whatever is raised is logged and ends the category only. (The second chain of \<^verbatim>\<open>get\<close>s, for
  \<^verbatim>\<open>total\<close>, cannot raise once the first has passed; \<^verbatim>\<open>len(products_data)\<close> in the log line
  raises exactly when the iteration would.)
\<close>

definition collect_category :: "catalog \<Rightarrow> int option \<Rightarrow> int \<Rightarrow> run \<Rightarrow> run" where
  "collect_category api limit category r =
     (let r' = r\<lparr>grid_calls := grid_calls r @ [category]\<rparr>
      in case ebind (get_paginated_products api category) (\<lambda>response.
              ebind (py_get response ''data'' (JDict [])) (\<lambda>data.
              ebind (py_get data ''paginatedProductGrid'' (JDict [])) (\<lambda>grid.
              ebind (py_get grid ''products'' (JList [])) (\<lambda>products_data.
                py_iter products_data)))) of
           Inl e \<Rightarrow> r'
         | Inr products_list \<Rightarrow> product_loop api limit products_list r')"

fun category_loop :: "catalog \<Rightarrow> int option \<Rightarrow> int list \<Rightarrow> run \<Rightarrow> run" where
  "category_loop api limit [] r = r"
| "category_loop api limit (category # rest) r =
     (if limit_reached limit r then r
      else category_loop api limit rest (collect_category api limit category r))"

text \<open>
  \<^verbatim>\<open>collect_products\<close>: without categories the run takes 1 to 300. The result is the final
  state of the run; the method returns \<^verbatim>\<open>list(collected_uids)\<close>.
\<close>

definition start :: "session \<Rightarrow> run" where
  "start s = \<lparr>db = s, collected_uids = [], product_urls = [], detail_calls = [],
              returned_uids = [], grid_calls = []\<rparr>"

definition collect_products :: "catalog \<Rightarrow> int list option \<Rightarrow> int option \<Rightarrow> session \<Rightarrow> run" where
  "collect_products api categories limit s =
     category_loop api limit (case categories of None \<Rightarrow> [1..300] | Some cs \<Rightarrow> cs) (start s)"

text \<open>
  What holds of the record of a run at every point of it: no URL was passed to
  \<^verbatim>\<open>collect_product\<close> twice, the URLs passed are the marked ones, and the result holds each
  uid once and holds the uids that \<^verbatim>\<open>collect_product\<close> returned.
\<close>

definition run_inv :: "run \<Rightarrow> bool" where
  "run_inv r =
     (distinct (detail_calls r) \<and> set (detail_calls r) = set (product_urls r) \<and>
      distinct (collected_uids r) \<and> set (collected_uids r) = set (returned_uids r))"

text \<open>
  A small catalog for examples: category 1 lists the product at \<^verbatim>\<open>/a\<close>, category 2 lists
  \<^verbatim>\<open>/a\<close> and \<^verbatim>\<open>/b\<close>, every other grid request fails; the two products have the uids
  \<^verbatim>\<open>u1\<close> and \<^verbatim>\<open>u2\<close>. And a session on an empty database.
\<close>

definition ok_body :: "json \<Rightarrow> http_result" where
  "ok_body data = Response 200 (Some (JDict [(''data'', data)]))"

definition grid_of :: "string list \<Rightarrow> http_result" where
  "grid_of urls =
     ok_body (JDict [(''paginatedProductGrid'',
       JDict [(''products'', JList (map (\<lambda>u. JDict [(''url'', JStr u)]) urls)),
              (''total'', JNum (int (length urls)))])])"

definition two_categories :: catalog where
  "two_categories =
     \<lparr>post_grid = (\<lambda>c. if c = 1 then grid_of [''/a'']
                       else if c = 2 then grid_of [''/a'', ''/b'']
                       else NoResponse),
      post_detail = (\<lambda>url.
         if url = JStr ''/a''
         then ok_body (JDict [(''product'', JDict [(''uid'', JStr ''u1''), (''title'', JStr ''Ski A'')])])
         else if url = JStr ''/b''
         then ok_body (JDict [(''product'', JDict [(''uid'', JStr ''u2''), (''title'', JStr ''Ski B'')])])
         else NoResponse)\<rparr>"

definition empty_session :: session where
  "empty_session = \<lparr>committed = no_rows, txn = no_rows, pending = no_rows\<rparr>"

text \<open>
  A session on a database that holds one product, \<^verbatim>\<open>u1\<close>, with two specs, a price, a
  technology and a feature, and nothing uncommitted.
\<close>

definition stored_tables :: tables where
  "stored_tables =
     \<lparr>products =
        [\<lparr>p_uid = JStr ''u1'', p_title = JStr ''Ski A'', p_display_title = JStr ''Ski A'',
          p_url = JStr ''/a'', p_description = JStr ''A ski'', p_tagline = JStr ''Fast''\<rparr>],
      product_specs =
        [\<lparr>ps_product_uid = JStr ''u1'', ps_spec_id = ''len'', ps_title = ''Length'',
          ps_value = Some ''170cm''\<rparr>,
         \<lparr>ps_product_uid = JStr ''u1'', ps_spec_id = ''wid'', ps_title = ''Width'',
          ps_value = Some ''44mm''\<rparr>],
      product_prices =
        [\<lparr>pp_product_uid = JStr ''u1'', pp_region = ''no'', pp_price = JStr ''100 NOK''\<rparr>],
      product_technologies =
        [\<lparr>pt_product_uid = JStr ''u1'', pt_title = ''Core'', pt_content = ''Carbon''\<rparr>],
      product_features =
        [\<lparr>pf_product_uid = JStr ''u1'', pf_group_title = Some ''Base'', pf_content = ''Sintered''\<rparr>]\<rparr>"

definition stored_session :: session where
  "stored_session = \<lparr>committed = stored_tables, txn = stored_tables, pending = no_rows\<rparr>"

definition stored_product :: Product where
  "stored_product =
     \<lparr>p_uid = JStr ''u1'', p_title = JStr ''Ski A'', p_display_title = JStr ''Ski A'',
      p_url = JStr ''/a'', p_description = JStr ''A ski'', p_tagline = JStr ''Fast''\<rparr>"

text \<open>A new payload for \<^verbatim>\<open>u1\<close> with one spec and nothing else but a title.\<close>

definition one_spec_payload :: json where
  "one_spec_payload =
     JDict [(''uid'', JStr ''u1''), (''title'', JStr ''Ski A2''),
            (''updated_product_specs'',
               JList [JDict [(''id'', JStr ''len''), (''title'', JStr ''Length''),
                             (''value'', JStr ''175cm'')]])]"

text \<open>
  The same payload as the API gives it when the product has no details: the \<^verbatim>\<open>details\<close>
  field is null. And a catalog whose category 1 lists \<^verbatim>\<open>/a\<close>, with this payload, before
  \<^verbatim>\<open>/b\<close>, a product the database does not hold yet.
\<close>

definition null_details_payload :: json where
  "null_details_payload =
     JDict [(''uid'', JStr ''u1''), (''title'', JStr ''Ski A2''),
            (''updated_product_specs'',
               JList [JDict [(''id'', JStr ''len''), (''title'', JStr ''Length''),
                             (''value'', JStr ''175cm'')]]),
            (''details'', JNull)]"

definition null_details_catalog :: catalog where
  "null_details_catalog =
     \<lparr>post_grid = (\<lambda>c. if c = 1 then grid_of [''/a'', ''/b''] else NoResponse),
      post_detail = (\<lambda>url.
         if url = JStr ''/a'' then ok_body (JDict [(''product'', null_details_payload)])
         else if url = JStr ''/b''
         then ok_body (JDict [(''product'', JDict [(''uid'', JStr ''u2''), (''title'', JStr ''Ski B'')])])
         else NoResponse)\<rparr>"

text \<open>
  Two answers of the catalog for the product at \<^verbatim>\<open>/a\<close>: first with a description that has a
  line feed inside a tag, later without a description.
\<close>

definition first_fetch :: catalog where
  "first_fetch =
     \<lparr>post_grid = (\<lambda>c. NoResponse),
      post_detail = (\<lambda>url. ok_body (JDict [(''product'',
         JDict [(''uid'', JStr ''u1''), (''title'', JStr ''Ski A''),
                (''description'', JStr (''x<a'' @ [CHR 0x0A] @ ''>y''))])]))\<rparr>"

definition second_fetch :: catalog where
  "second_fetch =
     \<lparr>post_grid = (\<lambda>c. NoResponse),
      post_detail = (\<lambda>url. ok_body (JDict [(''product'',
         JDict [(''uid'', JStr ''u1''), (''title'', JStr ''Ski A'')])]))\<rparr>"

section \<open>Properties of the HTML stripping\<close>

lemma tag_end_None_remove_tags: "tag_end cs = None \<Longrightarrow> tag_end (remove_tags cs) = None"
  by (induction cs rule: remove_tags.induct) (auto split: if_splits option.splits)

lemma no_tag_remove_tags: "\<not> has_tag (remove_tags s)"
  by (induction s rule: remove_tags.induct) (auto split: option.splits simp: tag_end_None_remove_tags)

lemma tag_end_set: "tag_end cs = Some r \<Longrightarrow> set r \<subseteq> set cs"
  by (induction cs) (auto split: if_splits)

lemma tag_end_span_end: "CHR 0x0A \<notin> set cs \<Longrightarrow> tag_end cs = span_end cs"
  by (induction cs) auto

lemma remove_tags_spans: "CHR 0x0A \<notin> set s \<Longrightarrow> remove_tags s = remove_spans s"
proof (induction s rule: remove_tags.induct)
  case 1
  then show ?case by simp
next
  case (2 c cs)
  then show ?case
    using tag_end_set[of cs] by (auto simp: tag_end_span_end split: option.splits)
qed

lemma span_end_None: "span_end cs = None \<Longrightarrow> CHR ''>'' \<notin> set cs"
  by (induction cs) (auto split: if_splits)

lemma span_end_set: "span_end cs = Some r \<Longrightarrow> set r \<subseteq> set cs"
  by (induction cs) (auto split: if_splits)

lemma remove_spans_set: "set (remove_spans s) \<subseteq> set s"
proof (induction s rule: remove_spans.induct)
  case 1
  then show ?case by simp
next
  case (2 c cs)
  show ?case
  proof (cases "c = CHR ''<''")
    case False
    with 2 show ?thesis by auto
  next
    case True
    show ?thesis
    proof (cases "span_end cs")
      case None
      with True 2 show ?thesis by auto
    next
      case (Some r)
      from 2 True Some have "set (remove_spans r) \<subseteq> set r" by simp
      moreover have "set r \<subseteq> set cs" using Some by (rule span_end_set)
      ultimately show ?thesis using True Some by auto
    qed
  qed
qed

lemma no_span_remove_spans: "\<not> has_span (remove_spans s)"
proof (induction s rule: remove_spans.induct)
  case 1
  then show ?case by simp
next
  case (2 c cs)
  then show ?case
    using remove_spans_set[of cs] by (auto split: option.splits dest: span_end_None)
qed

lemma collapse_ws_set: "set (collapse_ws s) \<subseteq> insert (CHR '' '') (set s)"
proof (induction s rule: collapse_ws.induct)
  case 1
  then show ?case by simp
next
  case (2 c cs)
  then show ?case using set_dropWhileD[of _ is_space cs] by auto
qed

lemma has_span_append:
  "has_span (xs @ ys) \<longleftrightarrow>
     has_span xs \<or> has_span ys \<or> (CHR ''<'' \<in> set xs \<and> CHR ''>'' \<in> set ys)"
  by (induction xs) auto

lemma has_span_suffix: "\<not> has_span (xs @ ys) \<Longrightarrow> \<not> has_span ys"
  by (simp add: has_span_append)

lemma has_span_prefix: "\<not> has_span (xs @ ys) \<Longrightarrow> \<not> has_span xs"
  by (simp add: has_span_append)

lemma has_span_dropWhile: "\<not> has_span s \<Longrightarrow> \<not> has_span (dropWhile P s)"
  using has_span_suffix[of "takeWhile P s" "dropWhile P s"] by simp

lemma no_span_collapse_ws: "\<not> has_span s \<Longrightarrow> \<not> has_span (collapse_ws s)"
proof (induction s rule: collapse_ws.induct)
  case 1
  then show ?case by simp
next
  case (2 c cs)
  show ?case
  proof (cases "is_space c")
    case True
    with 2 show ?thesis by (auto simp: has_span_dropWhile)
  next
    case False
    with 2 show ?thesis using collapse_ws_set[of cs] by auto
  qed
qed

lemma strip_decomp: "\<exists>xs ys. s = xs @ strip s @ ys"
proof -
  let ?d = "dropWhile is_space s"
  have "s = takeWhile is_space s @ ?d" by simp
  moreover have "?d = rev (dropWhile is_space (rev ?d)) @ rev (takeWhile is_space (rev ?d))"
    by (metis rev_append rev_rev_ident takeWhile_dropWhile_id)
  ultimately have "s = takeWhile is_space s @ strip s @ rev (takeWhile is_space (rev ?d))"
    by (simp add: strip_def)
  then show ?thesis by blast
qed

lemma no_span_strip: "\<not> has_span s \<Longrightarrow> \<not> has_span (strip s)"
  using strip_decomp[of s] by (metis has_span_prefix has_span_suffix)

lemma ws_collapsed_tl: "ws_collapsed (c # cs) \<Longrightarrow> ws_collapsed cs"
  by (cases cs) auto

lemma ws_collapsed_suffix: "ws_collapsed (xs @ ys) \<Longrightarrow> ws_collapsed ys"
  by (induction xs) (auto dest: ws_collapsed_tl)

lemma ws_collapsed_prefix: "ws_collapsed (xs @ ys) \<Longrightarrow> ws_collapsed xs"
proof (induction xs rule: ws_collapsed.induct)
  case 1
  then show ?case by simp
next
  case (2 c)
  then show ?case by (cases ys) (auto split: if_splits)
next
  case (3 c d cs)
  then show ?case by (auto split: if_splits)
qed

lemma ws_collapsed_strip: "ws_collapsed s \<Longrightarrow> ws_collapsed (strip s)"
  using strip_decomp[of s] by (metis ws_collapsed_prefix ws_collapsed_suffix)

lemma collapse_ws_Nil: "collapse_ws s = [] \<longleftrightarrow> s = []"
  by (cases s) auto

lemma collapse_ws_hd: "s \<noteq> [] \<Longrightarrow> \<not> is_space (hd s) \<Longrightarrow> hd (collapse_ws s) = hd s"
  by (cases s) auto

lemma ws_collapsed_Cons:
  "ws_collapsed (c # cs) \<longleftrightarrow>
     (if is_space c then c = CHR '' '' \<and> (cs = [] \<or> \<not> is_space (hd cs)) else True) \<and>
     ws_collapsed cs"
  by (cases cs) auto

lemma ws_collapsed_collapse_ws: "ws_collapsed (collapse_ws s)"
proof (induction s rule: collapse_ws.induct)
  case 1
  then show ?case by simp
next
  case (2 c cs)
  show ?case
  proof (cases "is_space c")
    case True
    have "collapse_ws (dropWhile is_space cs) = [] \<or>
          \<not> is_space (hd (collapse_ws (dropWhile is_space cs)))"
    proof (cases "dropWhile is_space cs = []")
      case True
      then have "collapse_ws (dropWhile is_space cs) = []" by (simp only: collapse_ws.simps)
      then show ?thesis by (rule disjI1)
    next
      case False
      then have "\<not> is_space (hd (dropWhile is_space cs))" by (rule hd_dropWhile)
      with False show ?thesis by (simp add: collapse_ws_hd)
    qed
    with True 2 show ?thesis by (simp add: ws_collapsed_Cons)
  next
    case False
    with 2 show ?thesis by (simp add: ws_collapsed_Cons)
  qed
qed

lemma trimmed_strip: "trimmed (strip s)"
proof (cases "strip s = []")
  case True
  then show ?thesis by (simp add: trimmed_def)
next
  case False
  let ?d = "dropWhile is_space s"
  let ?e = "dropWhile is_space (rev ?d)"
  have e: "?e \<noteq> []" using False by (simp add: strip_def)
  then have l: "\<not> is_space (last (strip s))"
    using hd_dropWhile[of is_space "rev ?d"] by (simp add: strip_def last_rev)
  have d: "?d \<noteq> []"
  proof
    assume "?d = []"
    then have "?e = []" by (simp only: rev.simps dropWhile.simps)
    with e show False by contradiction
  qed
  have "?d = strip s @ rev (takeWhile is_space (rev ?d))"
    by (metis rev_append rev_rev_ident takeWhile_dropWhile_id strip_def)
  then have "hd ?d = hd (strip s)" using False by (metis hd_append2)
  then have "\<not> is_space (hd (strip s))" using hd_dropWhile[of is_space s] d by metis
  with l False show ?thesis by (simp add: trimmed_def)
qed

lemma clean_html_str: "clean_html (JStr s) = Inr (strip (collapse_ws (remove_tags s)))"
  by (simp add: strip_def)




section \<open>Properties of the catalog client\<close>

lemma contains_errors_dict: "contains_errors (JDict kvs) = Inr (map_of kvs ''errors'' \<noteq> None)"
  by (simp add: map_of_eq_None_iff)

lemma execute_dict:
  "\<not> (400 \<le> status \<and> status < 600) \<Longrightarrow>
   execute (Response status (Some (JDict kvs))) =
     (case map_of kvs ''errors'' of None \<Rightarrow> Inr (JDict kvs) | Some errs \<Rightarrow> Inl (GraphQLError errs))"
  by (simp add: execute_def ebind_def contains_errors_dict del: contains_errors.simps
        split: option.splits)

lemma execute_http_failure:
  "400 \<le> status \<and> status < 600 \<Longrightarrow> execute (Response status body) = Inl (HTTPError status)"
  by (simp add: execute_def)

text \<open>
  Claim C8. When the decoded body is an object with an \<^verbatim>\<open>errors\<close> field (and the status is
  no HTTP failure), \<open>execute\<close> raises \<open>GraphQLError\<close> carrying the value of that field, which
  is no transport error. Without a response, and on a status from 400 to 599, it raises a
  transport error. An object without an \<^verbatim>\<open>errors\<close> field is returned as it is, an empty
  result included.
\<close>

theorem execute_distinguishes_errors:
  "(map_of kvs ''errors'' = Some errs \<and> \<not> (400 \<le> status \<and> status < 600) \<longrightarrow>
      execute (Response status (Some (JDict kvs))) = Inl (GraphQLError errs)) \<and>
   \<not> is_transport_error (GraphQLError errs) \<and>
   (\<exists>e. execute NoResponse = Inl e \<and> is_transport_error e) \<and>
   (400 \<le> status' \<and> status' < 600 \<longrightarrow>
      (\<exists>e. execute (Response status' body) = Inl e \<and> is_transport_error e)) \<and>
   (map_of kvs' ''errors'' = None \<and> \<not> (400 \<le> status'' \<and> status'' < 600) \<longrightarrow>
      execute (Response status'' (Some (JDict kvs'))) = Inr (JDict kvs'))"
proof (intro conjI impI)
  assume "map_of kvs ''errors'' = Some errs \<and> \<not> (400 \<le> status \<and> status < 600)"
  then show "execute (Response status (Some (JDict kvs))) = Inl (GraphQLError errs)"
    by (simp add: execute_dict)
next
  show "\<not> is_transport_error (GraphQLError errs)" by simp
next
  show "\<exists>e. execute NoResponse = Inl e \<and> is_transport_error e"
    by (simp add: execute_def)
next
  assume "400 \<le> status' \<and> status' < 600"
  then show "\<exists>e. execute (Response status' body) = Inl e \<and> is_transport_error e"
    by (simp add: execute_http_failure)
next
  assume "map_of kvs' ''errors'' = None \<and> \<not> (400 \<le> status'' \<and> status'' < 600)"
  then show "execute (Response status'' (Some (JDict kvs'))) = Inr (JDict kvs')"
    by (simp add: execute_dict)
qed

theorem execute_distinguishes_errors_witness:
  "execute (Response 200 (Some (JDict [(''errors'', JList [JStr ''bad query''])]))) =
     Inl (GraphQLError (JList [JStr ''bad query''])) \<and>
   (\<exists>e. execute (Response 503 None) = Inl e \<and> is_transport_error e) \<and>
   execute (Response 200 (Some (JDict [(''data'', JDict [(''product'', JNull)])]))) =
     Inr (JDict [(''data'', JDict [(''product'', JNull)])])"
  using execute_distinguishes_errors [of "[(''errors'', JList [JStr ''bad query''])]"
      "JList [JStr ''bad query'']" 200 503 None "[(''data'', JDict [(''product'', JNull)])]" 200]
  by simp

section \<open>Properties of the field extraction\<close>

lemma ebind_Inr_right: "ebind m Inr = m"
  by (cases m) (simp_all add: ebind_def)

lemma collect_single: "collect f [x] = f x"
  by (cases "f x") (simp_all add: ebind_def)

lemma collect_drop:
  "f t = Inr [] \<Longrightarrow> collect f (xs @ t # ys) = collect f (xs @ ys)"
  by (induction xs) (simp_all add: ebind_def ebind_Inr_right split: sum.splits)

lemma technologies_of_single: "technologies_of (JList [JDict tech]) = technologies_of (JDict tech)"
  by (simp only: technologies_of.simps collect_single)

lemma extract_technologies_details:
  "extract_technologies (JDict ((''details'', JDict ((''technology'', t) # ds)) # pd)) =
     technologies_of t"
  by (simp add: extract_technologies_def ebind_def)

lemma extract_technology_no_title:
  assumes "case map_of tech ''title'' of None \<Rightarrow> True | Some t \<Rightarrow> \<not> truthy t"
    and "clean_html (case map_of tech ''content'' of None \<Rightarrow> JStr [] | Some c \<Rightarrow> c) = Inr text"
  shows "extract_technology (JDict tech) = Inr []"
  using assms by (auto simp: extract_technology_def ebind_def split: option.splits)



lemma collect_Inr:
  "collect f xs = Inr rows \<Longrightarrow> (\<And>x ys. x \<in> set xs \<Longrightarrow> f x = Inr ys \<Longrightarrow> ys = g x) \<Longrightarrow>
   rows = concat (map g xs)"
proof (induction xs arbitrary: rows)
  case Nil
  then show ?case by simp
next
  case (Cons x xs)
  from Cons.prems(1) obtain ys zs where f: "f x = Inr ys" and c: "collect f xs = Inr zs"
    and r: "rows = ys @ zs"
    by (auto simp: ebind_def split: sum.splits)
  have "ys = g x" using Cons.prems(2) f by simp
  moreover have "zs = concat (map g xs)" using Cons.IH [OF c] Cons.prems(2) by simp
  ultimately show ?case using r by simp
qed

lemma collect_all_Inr: "collect f xs = Inr rows \<Longrightarrow> x \<in> set xs \<Longrightarrow> \<exists>ys. f x = Inr ys"
  by (induction xs arbitrary: rows) (auto simp: ebind_def split: sum.splits)

lemma collect_not_dict:
  assumes "collect f xs = Inr rows" and "\<And>x. x \<in> set xs \<Longrightarrow> f x = Inl AttributeError"
  shows "xs = []"
proof (cases xs)
  case Nil
  then show ?thesis .
next
  case (Cons x ys)
  then have "x \<in> set xs" by simp
  with assms collect_all_Inr [of f xs rows x] show ?thesis by auto
qed

lemma extract_feature_Inr:
  "extract_feature t i = Inr ys \<Longrightarrow> ys = feature_item_rows t i"
  by (cases i; cases t; cases "field i ''content'' (JStr [])")
     (auto simp: extract_feature_def feature_item_rows_def ebind_def new_ProductFeatureSchema_def
         split: if_splits option.splits sum.splits)

lemma iter_collect_Inr:
  assumes "py_iter v = Inr xs" and "collect f xs = Inr rows"
    and "\<And>x. (\<forall>kvs. x \<noteq> JDict kvs) \<Longrightarrow> f x = Inl AttributeError"
  shows "xs = elements v"
proof (cases v)
  case (JList ys)
  with assms(1) show ?thesis by simp
next
  case (JDict kvs)
  with assms(1) have xs: "xs = map (\<lambda>kv. JStr (fst kv)) kvs" by simp
  have "xs = []" using assms(2)
    by (rule collect_not_dict) (auto simp: xs intro!: assms(3))
  with JDict show ?thesis by simp
next
  case (JStr s)
  with assms(1) have xs: "xs = map (\<lambda>c. JStr [c]) s" by simp
  have "xs = []" using assms(2)
    by (rule collect_not_dict) (auto simp: xs intro!: assms(3))
  with JStr show ?thesis by simp
qed (use assms(1) in simp_all)

lemma extract_feature_not_dict: "(\<forall>kvs. x \<noteq> JDict kvs) \<Longrightarrow> extract_feature t x = Inl AttributeError"
  by (cases x) (simp_all add: extract_feature_def ebind_def)

lemma extract_feature_group_not_dict:
  "(\<forall>kvs. x \<noteq> JDict kvs) \<Longrightarrow> extract_feature_group x = Inl AttributeError"
  by (cases x) (simp_all add: extract_feature_group_def ebind_def)

lemma py_get_field: "py_get v k d = Inr x \<Longrightarrow> x = field v k d"
  by (cases v) auto

lemma extract_feature_group_Inr:
  assumes "extract_feature_group g = Inr ys"
  shows "ys = concat (map (feature_item_rows (field g ''group_title'' (JStr [])))
                          (elements (field g ''group'' (JList []))))"
proof -
  from assms obtain t grp xs where
    t: "py_get g ''group_title'' (JStr []) = Inr t" and
    grp: "py_get g ''group'' (JList []) = Inr grp" and
    xs: "py_iter grp = Inr xs" and
    c: "collect (extract_feature t) xs = Inr ys"
    by (auto simp: extract_feature_group_def ebind_def split: sum.splits)
  have "xs = elements grp"
    using xs c by (rule iter_collect_Inr) (rule extract_feature_not_dict)
  moreover have "ys = concat (map (feature_item_rows t) xs)"
    using c by (rule collect_Inr) (rule extract_feature_Inr)
  ultimately show ?thesis using py_get_field [OF t] py_get_field [OF grp] by simp
qed

lemma extract_features_Inr:
  assumes "extract_features pd = Inr rows"
  shows "rows = concat (map (\<lambda>g. concat (map (feature_item_rows (field g ''group_title'' (JStr [])))
                          (elements (field g ''group'' (JList [])))))
                  (elements (field (field pd ''details'' (JDict [])) ''feature_details'' (JList []))))"
proof -
  from assms obtain details fd xs where
    d: "py_get pd ''details'' (JDict []) = Inr details" and
    fd: "py_get details ''feature_details'' (JList []) = Inr fd" and
    xs: "py_iter fd = Inr xs" and
    c: "collect extract_feature_group xs = Inr rows"
    by (auto simp: extract_features_def ebind_def split: sum.splits)
  have "xs = elements fd"
    using xs c by (rule iter_collect_Inr) (rule extract_feature_group_not_dict)
  moreover have "rows = concat (map (\<lambda>g. concat (map (feature_item_rows (field g ''group_title'' (JStr [])))
                          (elements (field g ''group'' (JList []))))) xs)"
    using c by (rule collect_Inr) (rule extract_feature_group_Inr)
  ultimately show ?thesis using py_get_field [OF d] py_get_field [OF fd] by simp
qed

lemma map_filter_concat:
  "map h (filter P (concat (map (\<lambda>g. map (k g) (items g)) gs))) =
   concat (map (\<lambda>g. concat (map (\<lambda>i. if P (k g i) then [h (k g i)] else []) (items g))) gs)"
proof (induction gs)
  case Nil
  then show ?case by simp
next
  case (Cons g gs)
  have "map h (filter P (map (k g) xs)) = concat (map (\<lambda>i. if P (k g i) then [h (k g i)] else []) xs)" for xs
    by (induction xs) simp_all
  with Cons show ?case by simp
qed

lemma flattened_features_concat:
  "flattened_features pd =
     concat (map (\<lambda>g. concat (map (feature_item_rows (field g ''group_title'' (JStr [])))
                          (elements (field g ''group'' (JList [])))))
                  (elements (field (field pd ''details'' (JDict [])) ''feature_details'' (JList []))))"
proof -
  have r: "feature_item_rows t =
      (\<lambda>i. if truthy (field i ''content'' (JStr []))
           then [\<lparr>fs_group_title = opt_text_of t, fs_content = text_of (field i ''content'' (JStr []))\<rparr>]
           else [])" for t
    by (rule ext) (simp add: feature_item_rows_def)
  show ?thesis
    unfolding flattened_features_def feature_items_def
    by (simp add: map_filter_concat r cong: if_cong)
qed

lemma extract_feature_content:
  "extract_feature t i = Inr ys \<Longrightarrow> truthy (field i ''content'' (JStr [])) \<Longrightarrow>
   \<exists>s. field i ''content'' (JStr []) = JStr s"
  by (cases i; cases "field i ''content'' (JStr [])")
     (auto simp: extract_feature_def ebind_def new_ProductFeatureSchema_def
         split: if_splits option.splits sum.splits)

lemma extract_feature_group_content:
  assumes "extract_feature_group g = Inr ys" and "i \<in> set (elements (field g ''group'' (JList [])))"
    and "truthy (field i ''content'' (JStr []))"
  shows "\<exists>s. field i ''content'' (JStr []) = JStr s"
proof -
  from assms(1) obtain t grp xs where
    grp: "py_get g ''group'' (JList []) = Inr grp" and
    xs: "py_iter grp = Inr xs" and
    c: "collect (extract_feature t) xs = Inr ys"
    by (auto simp: extract_feature_group_def ebind_def split: sum.splits)
  have "xs = elements grp"
    using xs c by (rule iter_collect_Inr) (rule extract_feature_not_dict)
  with assms(2) py_get_field [OF grp] have "i \<in> set xs" by simp
  with c obtain zs where "extract_feature t i = Inr zs" by (blast dest: collect_all_Inr)
  then show ?thesis using assms(3) by (rule extract_feature_content)
qed

lemma extract_features_content:
  assumes "extract_features pd = Inr rows" and "tc \<in> set (feature_items pd)" and "truthy (snd tc)"
  shows "\<exists>s. snd tc = JStr s"
proof -
  from assms(1) obtain details fd xs where
    d: "py_get pd ''details'' (JDict []) = Inr details" and
    fd: "py_get details ''feature_details'' (JList []) = Inr fd" and
    xs: "py_iter fd = Inr xs" and
    c: "collect extract_feature_group xs = Inr rows"
    by (auto simp: extract_features_def ebind_def split: sum.splits)
  have e: "xs = elements (field (field pd ''details'' (JDict [])) ''feature_details'' (JList []))"
    using iter_collect_Inr [OF xs c extract_feature_group_not_dict]
      py_get_field [OF d] py_get_field [OF fd] by simp
  from assms(2) obtain g i where g: "g \<in> set xs"
    and i: "i \<in> set (elements (field g ''group'' (JList [])))"
    and tc: "tc = (field g ''group_title'' (JStr []), field i ''content'' (JStr []))"
    unfolding feature_items_def e [symmetric] by auto
  from c g obtain ys where "extract_feature_group g = Inr ys" by (blast dest: collect_all_Inr)
  then show ?thesis using i assms(3) unfolding tc snd_conv by (rule extract_feature_group_content)
qed

text \<open>
  Claim C4, as stated, has every kept content stored with its HTML tags stripped. The
  feature extraction never calls \<open>clean_html\<close>: the content \<^verbatim>\<open><b>light</b>\<close> is stored as it
  is, where stripping gives \<^verbatim>\<open>light\<close>.
\<close>

theorem extract_features_keeps_html_counterexample:
  "extract_features features_payload =
     Inr [\<lparr>fs_group_title = Some ''Core'', fs_content = ''<b>light</b>''\<rparr>,
          \<lparr>fs_group_title = None, fs_content = ''stiff''\<rparr>] \<and>
   clean_html (JStr ''<b>light</b>'') = Inr ''light''"
  by (simp add: features_payload_def extract_features_def extract_feature_group_def
      extract_feature_def ebind_def new_ProductFeatureSchema_def strip_def is_space_def)

text \<open>
  Claim C4, amended. Whenever the feature extraction returns, it returns the flattened list:
  one row for each item whose content is a true value, in payload order, with the title of
  the item's group, and no row for an item whose content is empty, null or absent. The
  content of a row is the item's content as the payload has it, a string, with nothing
  stripped.
\<close>

theorem extract_features_flattens:
  "extract_features product_data = Inr rows \<longrightarrow>
     rows = flattened_features product_data \<and>
     length rows = length (filter (\<lambda>tc. truthy (snd tc)) (feature_items product_data)) \<and>
     map (\<lambda>row. JStr (fs_content row)) rows =
       map snd (filter (\<lambda>tc. truthy (snd tc)) (feature_items product_data))"
proof
  assume a: "extract_features product_data = Inr rows"
  then have r: "rows = flattened_features product_data"
    by (simp only: extract_features_Inr flattened_features_concat)
  have "JStr (text_of (snd tc)) = snd tc"
    if "tc \<in> set (filter (\<lambda>tc. truthy (snd tc)) (feature_items product_data))" for tc
  proof -
    from that have "tc \<in> set (feature_items product_data)" and "truthy (snd tc)" by simp_all
    with a obtain s where "snd tc = JStr s" by (blast dest: extract_features_content)
    then show ?thesis by simp
  qed
  then have "map (\<lambda>row. JStr (fs_content row)) (flattened_features product_data) =
       map snd (filter (\<lambda>tc. truthy (snd tc)) (feature_items product_data))"
    unfolding flattened_features_def by (simp add: comp_def)
  with r show "rows = flattened_features product_data \<and>
     length rows = length (filter (\<lambda>tc. truthy (snd tc)) (feature_items product_data)) \<and>
     map (\<lambda>row. JStr (fs_content row)) rows =
       map snd (filter (\<lambda>tc. truthy (snd tc)) (feature_items product_data))"
    by (simp add: flattened_features_def)
qed

theorem extract_features_flattens_witness:
  "flattened_features features_payload =
     [\<lparr>fs_group_title = Some ''Core'', fs_content = ''<b>light</b>''\<rparr>,
      \<lparr>fs_group_title = None, fs_content = ''stiff''\<rparr>] \<and>
   map snd (filter (\<lambda>tc. truthy (snd tc)) (feature_items features_payload)) =
     [JStr ''<b>light</b>'', JStr ''stiff'']"
proof -
  let ?rows = "[\<lparr>fs_group_title = Some ''Core'', fs_content = ''<b>light</b>''\<rparr>,
      \<lparr>fs_group_title = None, fs_content = ''stiff''\<rparr>]"
  have "extract_features features_payload = Inr ?rows"
    by (simp add: features_payload_def extract_features_def extract_feature_group_def
      extract_feature_def ebind_def new_ProductFeatureSchema_def)
  with extract_features_flattens [of features_payload ?rows]
  have "?rows = flattened_features features_payload \<and>
     map (\<lambda>row. JStr (fs_content row)) ?rows =
       map snd (filter (\<lambda>tc. truthy (snd tc)) (feature_items features_payload))"
    by blast
  then show ?thesis by simp
qed

section \<open>Properties of the upsert\<close>

lemma add_specs_eq:
  "add_specs u sp s =
     s\<lparr>pending := (pending s)\<lparr>product_specs := product_specs (pending s) @ map (spec_row u) sp\<rparr>\<rparr>"
  unfolding add_specs_def
  by (induction sp arbitrary: s) (simp_all add: db_add_spec_def)

lemma add_prices_eq:
  "add_prices u pr s =
     s\<lparr>pending := (pending s)\<lparr>product_prices := product_prices (pending s) @
        map (price_row u) (filter (\<lambda>rp. truthy (snd rp)) pr)\<rparr>\<rparr>"
  unfolding add_prices_def
  by (induction pr arbitrary: s) (simp_all add: db_add_price_def)

lemma add_technologies_eq:
  "add_technologies u te s =
     s\<lparr>pending := (pending s)\<lparr>product_technologies := product_technologies (pending s) @
        map (technology_row u) te\<rparr>\<rparr>"
  unfolding add_technologies_def
  by (induction te arbitrary: s) (simp_all add: db_add_technology_def)

lemma add_features_eq:
  "add_features u fe s =
     s\<lparr>pending := (pending s)\<lparr>product_features := product_features (pending s) @
        map (feature_row u) fe\<rparr>\<rparr>"
  unfolding add_features_def
  by (induction fe arbitrary: s) (simp_all add: db_add_feature_def)

lemma sbind_lift: "sbind (lift r) f s = (case r of Inl e \<Rightarrow> (s, Inl e) | Inr x \<Rightarrow> f x s)"
  by (simp add: sbind_def lift_def split: sum.splits)

lemma sbind_effect: "sbind (effect g) f s = f () (g s)"
  by (simp add: sbind_def effect_def)

lemma insert_children_eq:
  "insert_children u pd s =
     (case extract_specs pd of
        Inl e \<Rightarrow> (s, Inl e)
      | Inr sp \<Rightarrow>
         (case extract_prices pd of
            Inl e \<Rightarrow> (add_specs u sp s, Inl e)
          | Inr pr \<Rightarrow>
             (case extract_technologies pd of
                Inl e \<Rightarrow> (add_prices u pr (add_specs u sp s), Inl e)
              | Inr te \<Rightarrow>
                 (case extract_features pd of
                    Inl e \<Rightarrow> (add_technologies u te (add_prices u pr (add_specs u sp s)), Inl e)
                  | Inr fe \<Rightarrow>
                     (db_commit (add_features u fe (add_technologies u te
                        (add_prices u pr (add_specs u sp s)))), Inr ())))))"
  by (simp add: insert_children_def sbind_lift sbind_effect effect_def split: sum.splits)

lemma insert_children_fail:
  "insert_children u pd s = (s', Inl e) \<Longrightarrow> committed s' = committed s \<and> txn s' = txn s"
  by (auto simp: insert_children_eq add_specs_eq add_prices_eq add_technologies_eq add_features_eq
      split: sum.splits)

lemma update_product_not_dict:
  "(\<forall>kvs. pd \<noteq> JDict kvs) \<Longrightarrow> update_product product pd s = (s, Inl AttributeError)"
  by (cases pd) (simp_all add: update_product_def sbind_lift)

lemma update_product_dict:
  "update_product product (JDict kvs) s =
     (let u = p_uid product;
          t = (case map_of kvs ''title'' of None \<Rightarrow> p_title product | Some v \<Rightarrow> v);
          dt = (case map_of kvs ''display_title'' of None \<Rightarrow> p_display_title product | Some v \<Rightarrow> v);
          ur = (case map_of kvs ''url'' of None \<Rightarrow> p_url product | Some v \<Rightarrow> v);
          tg = (case map_of kvs ''tagline'' of None \<Rightarrow> p_tagline product | Some v \<Rightarrow> v);
          s3 = db_assign u (\<lambda>q. q\<lparr>p_url := ur\<rparr>)
                (db_assign u (\<lambda>q. q\<lparr>p_display_title := dt\<rparr>)
                  (db_assign u (\<lambda>q. q\<lparr>p_title := t\<rparr>) s))
      in case clean_html (case map_of kvs ''description'' of None \<Rightarrow> p_description product | Some v \<Rightarrow> v) of
           Inl e \<Rightarrow> (s3, Inl e)
         | Inr d \<Rightarrow>
            (case insert_children u (JDict kvs) (deleted u (assigned product t dt ur d tg s)) of
               (s', Inl e) \<Rightarrow> (s', Inl e)
             | (s', Inr x) \<Rightarrow> (s', Inr u)))"
  by (simp add: update_product_def sbind_lift sbind_effect ebind_def assigned_def deleted_def Let_def lift_def
      sbind_def [of "insert_children _ _"] split: sum.splits prod.splits)


lemma create_product_not_dict:
  "(\<forall>kvs. pd \<noteq> JDict kvs) \<Longrightarrow> create_product pd s = (s, Inl AttributeError)"
  by (cases pd) (simp_all add: create_product_def sbind_lift)

lemma create_product_dict:
  "create_product (JDict kvs) s =
     (let uid = (case map_of kvs ''uid'' of None \<Rightarrow> JNull | Some v \<Rightarrow> v);
          title = (case map_of kvs ''title'' of None \<Rightarrow> JStr [] | Some v \<Rightarrow> v);
          display_title = (case map_of kvs ''display_title'' of None \<Rightarrow> JStr [] | Some v \<Rightarrow> v);
          url = (case map_of kvs ''url'' of None \<Rightarrow> JStr [] | Some v \<Rightarrow> v);
          tagline = (case map_of kvs ''tagline'' of None \<Rightarrow> JStr [] | Some v \<Rightarrow> v)
      in case clean_html (case map_of kvs ''description'' of None \<Rightarrow> JStr [] | Some v \<Rightarrow> v) of
           Inl e \<Rightarrow> (s, Inl e)
         | Inr d \<Rightarrow>
            (case insert_children uid (JDict kvs)
                    (db_flush (db_add_product
                       \<lparr>p_uid = uid, p_title = title, p_display_title = display_title,
                        p_url = url, p_description = JStr d, p_tagline = tagline\<rparr> s)) of
               (s', Inl e) \<Rightarrow> (s', Inl e)
             | (s', Inr x) \<Rightarrow> (s', Inr uid)))"
  by (simp add: create_product_def sbind_lift sbind_effect ebind_def Let_def lift_def
      sbind_def [of "insert_children _ _"] split: sum.splits prod.splits)

lemma insert_children_ok:
  "insert_children u pd s = (s', Inr x) \<Longrightarrow>
     committed s' = txn s' \<and> pending s' = no_rows \<and>
     products (txn s') = products (txn s) @ products (pending s)"
  by (auto simp: insert_children_eq add_specs_eq add_prices_eq add_technologies_eq add_features_eq
      db_commit_def db_flush_def Let_def split: sum.splits)

lemma committed_assigned [simp]: "committed (assigned product t dt ur d tg s) = committed s"
  by (simp add: assigned_def db_assign_def)

lemma committed_deleted [simp]: "committed (deleted u s) = committed s"
  by (simp add: deleted_def db_delete_specs_def db_delete_prices_def db_delete_technologies_def
      db_delete_features_def)

lemma committed_db_assign [simp]: "committed (db_assign u f s) = committed s"
  by (simp add: db_assign_def)

lemma update_product_fail:
  "update_product product pd s = (s', Inl e) \<Longrightarrow> committed s' = committed s"
proof (cases pd)
  case (JDict kvs)
  assume "update_product product pd s = (s', Inl e)"
  with JDict show ?thesis
    by (auto simp: update_product_dict Let_def split: sum.splits prod.splits
        dest!: insert_children_fail)
qed (simp_all add: update_product_not_dict)

lemma create_product_fail:
  "create_product pd s = (s', Inl e) \<Longrightarrow> committed s' = committed s"
proof (cases pd)
  case (JDict kvs)
  assume "create_product pd s = (s', Inl e)"
  with JDict show ?thesis
    by (auto simp: create_product_dict Let_def db_flush_def db_add_product_def
        split: sum.splits prod.splits dest!: insert_children_fail)
qed (simp_all add: create_product_not_dict)

lemma products_assigned:
  "products (txn (assigned product t dt ur d tg s)) =
     map (\<lambda>q. if p_uid q = p_uid product
               then q\<lparr>p_title := t, p_display_title := dt, p_url := ur,
                      p_description := JStr d, p_tagline := tg\<rparr>
               else q) (products (txn s))"
  by (simp add: assigned_def db_assign_def comp_def cong: if_cong)

lemma products_deleted [simp]: "products (txn (deleted u s)) = products (txn s)"
  by (simp add: deleted_def db_delete_specs_def db_delete_prices_def db_delete_technologies_def
      db_delete_features_def)

lemma pending_assigned [simp]: "pending (assigned product t dt ur d tg s) = pending s"
  by (simp add: assigned_def db_assign_def)

lemma pending_deleted [simp]: "pending (deleted u s) = pending s"
  by (simp add: deleted_def db_delete_specs_def db_delete_prices_def db_delete_technologies_def
      db_delete_features_def)

lemma update_product_Inr:
  assumes "update_product product (JDict kvs) s = (s', Inr u)"
  shows "\<exists>d x. clean_html (case map_of kvs ''description'' of None \<Rightarrow> p_description product | Some v \<Rightarrow> v) = Inr d \<and>
     insert_children (p_uid product) (JDict kvs)
       (deleted (p_uid product)
          (assigned product
             (case map_of kvs ''title'' of None \<Rightarrow> p_title product | Some v \<Rightarrow> v)
             (case map_of kvs ''display_title'' of None \<Rightarrow> p_display_title product | Some v \<Rightarrow> v)
             (case map_of kvs ''url'' of None \<Rightarrow> p_url product | Some v \<Rightarrow> v)
             d
             (case map_of kvs ''tagline'' of None \<Rightarrow> p_tagline product | Some v \<Rightarrow> v) s)) = (s', Inr x) \<and>
     u = p_uid product"
proof -
  let ?c = "clean_html (case map_of kvs ''description'' of None \<Rightarrow> p_description product | Some v \<Rightarrow> v)"
  show ?thesis
  proof (cases ?c)
    case (Inl e)
    with assms show ?thesis by (simp add: update_product_dict Let_def)
  next
    case (Inr d)
    let ?i = "insert_children (p_uid product) (JDict kvs)
       (deleted (p_uid product)
          (assigned product
             (case map_of kvs ''title'' of None \<Rightarrow> p_title product | Some v \<Rightarrow> v)
             (case map_of kvs ''display_title'' of None \<Rightarrow> p_display_title product | Some v \<Rightarrow> v)
             (case map_of kvs ''url'' of None \<Rightarrow> p_url product | Some v \<Rightarrow> v)
             d
             (case map_of kvs ''tagline'' of None \<Rightarrow> p_tagline product | Some v \<Rightarrow> v) s))"
    obtain s1 r where i: "?i = (s1, r)" by (cases ?i)
    show ?thesis
    proof (cases r)
      case (Inl e)
      with assms Inr i show ?thesis by (simp add: update_product_dict Let_def)
    next
      case (Inr x)
      with assms \<open>?c = Inr d\<close> i show ?thesis by (simp add: update_product_dict Let_def)
    qed
  qed
qed

lemma uids_assigned:
  "map p_uid (products (txn (assigned product t dt ur d tg s))) = map p_uid (products (txn s))"
  by (simp add: products_assigned comp_def cong: if_cong)

lemma update_product_ok:
  assumes "update_product product pd s = (s', Inr u)"
  shows "u = p_uid product \<and> committed s' = txn s' \<and> pending s' = no_rows \<and>
         map p_uid (products (committed s')) =
           map p_uid (products (txn s)) @ map p_uid (products (pending s))"
proof (cases pd)
  case (JDict kvs)
  with assms update_product_Inr [of product kvs s s' u] obtain d t dt ur tg x where
    i: "insert_children (p_uid product) (JDict kvs)
          (deleted (p_uid product) (assigned product t dt ur d tg s)) = (s', Inr x)"
    and u: "u = p_uid product"
    by blast
  from insert_children_ok [OF i]
  have c: "committed s' = txn s'" "pending s' = no_rows"
    and p: "products (txn s') = products (txn (assigned product t dt ur d tg s)) @ products (pending s)"
    by simp_all
  from p have "map p_uid (products (txn s')) =
      map p_uid (products (txn s)) @ map p_uid (products (pending s))"
    by (simp add: uids_assigned)
  with c u show ?thesis by simp
qed (use assms in \<open>simp_all add: update_product_not_dict\<close>)

lemma create_product_Inr:
  assumes "create_product (JDict kvs) s = (s', Inr u)"
  shows "\<exists>p x. insert_children u (JDict kvs) (db_flush (db_add_product p s)) = (s', Inr x) \<and>
     u = (case map_of kvs ''uid'' of None \<Rightarrow> JNull | Some v \<Rightarrow> v) \<and> p_uid p = u"
proof -
  let ?c = "clean_html (case map_of kvs ''description'' of None \<Rightarrow> JStr [] | Some v \<Rightarrow> v)"
  show ?thesis
  proof (cases ?c)
    case (Inl e)
    with assms show ?thesis by (simp add: create_product_dict Let_def)
  next
    case (Inr d)
    let ?u = "case map_of kvs ''uid'' of None \<Rightarrow> JNull | Some v \<Rightarrow> v"
    let ?p = "\<lparr>p_uid = ?u,
               p_title = (case map_of kvs ''title'' of None \<Rightarrow> JStr [] | Some v \<Rightarrow> v),
               p_display_title = (case map_of kvs ''display_title'' of None \<Rightarrow> JStr [] | Some v \<Rightarrow> v),
               p_url = (case map_of kvs ''url'' of None \<Rightarrow> JStr [] | Some v \<Rightarrow> v),
               p_description = JStr d,
               p_tagline = (case map_of kvs ''tagline'' of None \<Rightarrow> JStr [] | Some v \<Rightarrow> v)\<rparr>"
    let ?i = "insert_children ?u (JDict kvs) (db_flush (db_add_product ?p s))"
    obtain s1 r where i: "?i = (s1, r)" by (cases ?i)
    show ?thesis
    proof (cases r)
      case (Inl e)
      with assms Inr i show ?thesis by (simp add: create_product_dict Let_def)
    next
      case (Inr x)
      with assms \<open>?c = Inr d\<close> i have "s1 = s'" and "u = ?u"
        by (simp_all add: create_product_dict Let_def)
      with i Inr have "insert_children u (JDict kvs) (db_flush (db_add_product ?p s)) = (s', Inr x) \<and>
          u = ?u \<and> p_uid ?p = u"
        by simp
      then show ?thesis by blast
    qed
  qed
qed

lemma create_product_ok:
  assumes "create_product pd s = (s', Inr u)"
  shows "py_get pd ''uid'' JNull = Inr u \<and> committed s' = txn s' \<and> pending s' = no_rows \<and>
         map p_uid (products (committed s')) =
           map p_uid (products (txn s)) @ map p_uid (products (pending s)) @ [u]"
proof (cases pd)
  case (JDict kvs)
  with assms create_product_Inr [of kvs s s' u] obtain p x where
    i: "insert_children u (JDict kvs) (db_flush (db_add_product p s)) = (s', Inr x)"
    and u: "u = (case map_of kvs ''uid'' of None \<Rightarrow> JNull | Some v \<Rightarrow> v)" and pu: "p_uid p = u"
    by blast
  from insert_children_ok [OF i]
  have c: "committed s' = txn s'" "pending s' = no_rows"
    and p: "products (txn s') = products (txn s) @ products (pending s) @ [p]"
    by (simp_all add: db_flush_def db_add_product_def no_rows_def)
  with u pu JDict show ?thesis by simp
qed (use assms in \<open>simp_all add: create_product_not_dict\<close>)

lemma collect_product_eq:
  "collect_product api url s =
     (case get_product api url of
        Inl e \<Rightarrow> (s, None)
      | Inr response \<Rightarrow>
         (case ebind (py_get response ''data'' (JDict [])) (\<lambda>data. py_get data ''product'' (JDict [])) of
            Inl e \<Rightarrow> (s, None)
          | Inr product_data \<Rightarrow>
             if \<not> truthy product_data then (s, None)
             else (case py_get product_data ''uid'' JNull of
                     Inl e \<Rightarrow> (s, None)
                   | Inr uid \<Rightarrow>
                      if \<not> truthy uid then (s, None)
                      else (case db_find uid s of
                              Inl e \<Rightarrow> (s, None)
                            | Inr None \<Rightarrow>
                               (case create_product product_data s of
                                  (s', Inl e) \<Rightarrow> (s', None)
                                | (s', Inr u) \<Rightarrow> (s', Some u))
                            | Inr (Some product) \<Rightarrow>
                               (case update_product product product_data s of
                                  (s', Inl e) \<Rightarrow> (s', None)
                                | (s', Inr u) \<Rightarrow> (s', Some u))))))"
  by (simp add: collect_product_def collect_product_body_def sbind_lift sbind_def lift_def
      split: sum.splits option.splits prod.splits)

lemma db_find_Some:
  "db_find u s = Inr (Some product) \<Longrightarrow>
     hashable u \<and> p_uid product = u \<and> product \<in> set (products (txn s))"
  by (auto simp: db_find_def find_Some_iff split: if_splits)

lemma db_find_Inr: "db_find u s = Inr r \<Longrightarrow> hashable u"
  by (simp add: db_find_def split: if_splits)

text \<open>The ways \<open>collect_product\<close> can end.\<close>

lemma collect_product_cases:
  obtains (skip) "collect_product api url s = (s, None)"
  | (created) pd u s' where "db_find u s = Inr None" "truthy u" "py_get pd ''uid'' JNull = Inr u"
      "create_product pd s = (s', Inr u)" "collect_product api url s = (s', Some u)"
  | (create_failed) pd u s' e where "db_find u s = Inr None" "truthy u"
      "create_product pd s = (s', Inl e)" "collect_product api url s = (s', None)"
  | (updated) pd u product s' where "db_find u s = Inr (Some product)" "truthy u"
      "update_product product pd s = (s', Inr u)" "collect_product api url s = (s', Some u)"
  | (update_failed) pd u product s' e where "db_find u s = Inr (Some product)" "truthy u"
      "update_product product pd s = (s', Inl e)" "collect_product api url s = (s', None)"
proof (cases "get_product api url")
  case (Inl e)
  then show ?thesis by (intro skip) (simp add: collect_product_eq)
next
  case response: (Inr response)
  show ?thesis
  proof (cases "ebind (py_get response ''data'' (JDict [])) (\<lambda>data. py_get data ''product'' (JDict []))")
    case (Inl e)
    with response show ?thesis by (intro skip) (simp add: collect_product_eq)
  next
    case pd: (Inr pd)
    show ?thesis
    proof (cases "truthy pd")
      case False
      with response pd show ?thesis by (intro skip) (simp add: collect_product_eq)
    next
      case tpd: True
      show ?thesis
      proof (cases "py_get pd ''uid'' JNull")
        case (Inl e)
        with response pd tpd show ?thesis by (intro skip) (simp add: collect_product_eq)
      next
        case u: (Inr u)
        show ?thesis
        proof (cases "truthy u")
          case False
          with response pd tpd u show ?thesis by (intro skip) (simp add: collect_product_eq)
        next
          case tu: True
          show ?thesis
          proof (cases "db_find u s")
            case (Inl e)
            with response pd tpd u tu show ?thesis by (intro skip) (simp add: collect_product_eq)
          next
            case f: (Inr found)
            show ?thesis
            proof (cases found)
              case None
              obtain s' r where c: "create_product pd s = (s', r)" by (cases "create_product pd s")
              show ?thesis
              proof (cases r)
                case (Inl e)
                with response pd tpd u tu f None c show ?thesis
                  by (intro create_failed [of u pd s' e]) (simp_all add: collect_product_eq)
              next
                case (Inr u')
                with c create_product_ok [of pd s s' u'] u have "u' = u" by simp
                with Inr response pd tpd u tu f None c show ?thesis
                  by (intro created [of u pd s']) (simp_all add: collect_product_eq)
              qed
            next
              case (Some product)
              obtain s' r where c: "update_product product pd s = (s', r)"
                by (cases "update_product product pd s")
              show ?thesis
              proof (cases r)
                case (Inl e)
                with response pd tpd u tu f Some c show ?thesis
                  by (intro update_failed [of u product pd s' e]) (simp_all add: collect_product_eq)
              next
                case (Inr u')
                with c update_product_ok [of product pd s s' u'] db_find_Some [of u s product] f Some
                have "u' = u" by simp
                with Inr response pd tpd u tu f Some c show ?thesis
                  by (intro updated [of u product pd s']) (simp_all add: collect_product_eq)
              qed
            qed
          qed
        qed
      qed
    qed
  qed
qed

lemma collect_product_None:
  assumes "collect_product api url s = (s', None)"
  shows "committed s' = committed s"
proof (cases api url s rule: collect_product_cases)
  case skip
  with assms show ?thesis by simp
next
  case (created pd u s'')
  with assms show ?thesis by simp
next
  case (create_failed pd u s'' e)
  with assms create_product_fail [of pd s s'' e] show ?thesis by simp
next
  case (updated pd u product s'')
  with assms show ?thesis by simp
next
  case (update_failed pd u product s'' e)
  with assms update_product_fail [of product pd s s'' e] show ?thesis by simp
qed

lemma collect_product_Some:
  assumes "collect_product api url s = (s', Some u)"
  shows "truthy u \<and> hashable u \<and> committed s' = txn s' \<and> pending s' = no_rows \<and>
         u \<in> p_uid ` set (products (committed s'))"
proof (cases api url s rule: collect_product_cases)
  case skip
  with assms show ?thesis by simp
next
  case (created pd u' s'')
  with assms have e: "u' = u" "s'' = s'" by simp_all
  from created(4) e have cp: "create_product pd s = (s', Inr u)" by simp
  from create_product_ok [OF cp]
  have c: "committed s' = txn s'" "pending s' = no_rows"
    and m: "map p_uid (products (committed s')) =
       map p_uid (products (txn s)) @ map p_uid (products (pending s)) @ [u]"
    by blast+
  have "u \<in> set (map p_uid (products (committed s')))" by (simp only: m) simp
  then have "u \<in> p_uid ` set (products (committed s'))" by simp
  with c created(1,2) e db_find_Inr [of u' s None] show ?thesis by simp
next
  case (create_failed pd u s'' e)
  with assms show ?thesis by simp
next
  case (updated pd u' product s'')
  with assms have e: "u' = u" "s'' = s'" by simp_all
  from updated(3) e have up: "update_product product pd s = (s', Inr u)" by simp
  from update_product_ok [OF up]
  have c: "committed s' = txn s'" "pending s' = no_rows"
    and m: "map p_uid (products (committed s')) =
       map p_uid (products (txn s)) @ map p_uid (products (pending s))"
    by blast+
  from updated(1) e db_find_Some [of u' s product]
  have h: "hashable u" and "u \<in> set (map p_uid (products (txn s)))" by auto
  then have "u \<in> set (map p_uid (products (committed s')))" by (simp only: m) simp
  then have "u \<in> p_uid ` set (products (committed s'))" by simp
  with c h updated(2) e show ?thesis by simp
next
  case (update_failed pd u product s'' e)
  with assms show ?thesis by simp
qed

lemma insert_children_tables:
  assumes "insert_children u pd s = (s', Inr x)"
  shows "\<exists>sp pr te fe.
     extract_specs pd = Inr sp \<and> extract_prices pd = Inr pr \<and>
     extract_technologies pd = Inr te \<and> extract_features pd = Inr fe \<and>
     product_specs (committed s') =
       product_specs (txn s) @ product_specs (pending s) @ map (spec_row u) sp \<and>
     product_prices (committed s') =
       product_prices (txn s) @ product_prices (pending s) @
         map (price_row u) (filter (\<lambda>rp. truthy (snd rp)) pr) \<and>
     product_technologies (committed s') =
       product_technologies (txn s) @ product_technologies (pending s) @ map (technology_row u) te \<and>
     product_features (committed s') =
       product_features (txn s) @ product_features (pending s) @ map (feature_row u) fe"
  using assms
  by (auto simp: insert_children_eq add_specs_eq add_prices_eq add_technologies_eq add_features_eq
      db_commit_def db_flush_def Let_def split: sum.splits)

lemma children_deleted:
  "product_specs (txn (deleted u s)) = filter (\<lambda>x. ps_product_uid x \<noteq> u) (product_specs (txn s))"
  "product_prices (txn (deleted u s)) = filter (\<lambda>x. pp_product_uid x \<noteq> u) (product_prices (txn s))"
  "product_technologies (txn (deleted u s)) =
     filter (\<lambda>x. pt_product_uid x \<noteq> u) (product_technologies (txn s))"
  "product_features (txn (deleted u s)) = filter (\<lambda>x. pf_product_uid x \<noteq> u) (product_features (txn s))"
  by (simp_all add: deleted_def db_delete_specs_def db_delete_prices_def db_delete_technologies_def
      db_delete_features_def)

lemma children_assigned:
  "product_specs (txn (assigned product t dt ur d tg s)) = product_specs (txn s)"
  "product_prices (txn (assigned product t dt ur d tg s)) = product_prices (txn s)"
  "product_technologies (txn (assigned product t dt ur d tg s)) = product_technologies (txn s)"
  "product_features (txn (assigned product t dt ur d tg s)) = product_features (txn s)"
  by (simp_all add: assigned_def db_assign_def)

lemma filter_own_rows:
  "filter (\<lambda>x. k x = u) (filter (\<lambda>x. k x \<noteq> u) xs @ map f ys) = filter (\<lambda>x. k x = u) (map f ys)"
  by (induction xs) simp_all

lemma filter_map_all: "(\<And>y. k (f y) = u) \<Longrightarrow> filter (\<lambda>x. k x = u) (map f ys) = map f ys"
  by (induction ys) simp_all

lemma own_rows:
  "(\<And>y. k (f y) = u) \<Longrightarrow>
   filter (\<lambda>x. k x = u) (filter (\<lambda>x. k x \<noteq> u) xs @ [] @ map f ys) = map f ys"
  by (simp add: filter_own_rows filter_map_all)

lemma update_product_children:
  assumes p: "pending s = no_rows" and up: "update_product product pd s = (s', Inr u)"
  shows "\<exists>sp pr te fe.
      extract_specs pd = Inr sp \<and> extract_prices pd = Inr pr \<and>
      extract_technologies pd = Inr te \<and> extract_features pd = Inr fe \<and>
      filter (\<lambda>x. ps_product_uid x = p_uid product) (product_specs (committed s')) =
        map (spec_row (p_uid product)) sp \<and>
      filter (\<lambda>x. pp_product_uid x = p_uid product) (product_prices (committed s')) =
        map (price_row (p_uid product)) (filter (\<lambda>rp. truthy (snd rp)) pr) \<and>
      filter (\<lambda>x. pt_product_uid x = p_uid product) (product_technologies (committed s')) =
        map (technology_row (p_uid product)) te \<and>
      filter (\<lambda>x. pf_product_uid x = p_uid product) (product_features (committed s')) =
        map (feature_row (p_uid product)) fe"
proof (cases pd)
  case (JDict kvs)
  with up update_product_Inr [of product kvs s s' u] obtain d t dt ur tg x where
    i: "insert_children (p_uid product) (JDict kvs)
          (deleted (p_uid product) (assigned product t dt ur d tg s)) = (s', Inr x)"
    by blast
  from insert_children_tables [OF i] obtain sp pr te fe where
    e: "extract_specs pd = Inr sp" "extract_prices pd = Inr pr"
       "extract_technologies pd = Inr te" "extract_features pd = Inr fe"
    and t1: "product_specs (committed s') =
       filter (\<lambda>x. ps_product_uid x \<noteq> p_uid product) (product_specs (txn s)) @ [] @
         map (spec_row (p_uid product)) sp"
    and t2: "product_prices (committed s') =
       filter (\<lambda>x. pp_product_uid x \<noteq> p_uid product) (product_prices (txn s)) @ [] @
         map (price_row (p_uid product)) (filter (\<lambda>rp. truthy (snd rp)) pr)"
    and t3: "product_technologies (committed s') =
       filter (\<lambda>x. pt_product_uid x \<noteq> p_uid product) (product_technologies (txn s)) @ [] @
         map (technology_row (p_uid product)) te"
    and t4: "product_features (committed s') =
       filter (\<lambda>x. pf_product_uid x \<noteq> p_uid product) (product_features (txn s)) @ [] @
         map (feature_row (p_uid product)) fe"
    unfolding JDict children_deleted children_assigned pending_deleted pending_assigned p
    by (auto simp: no_rows_def)
  have "filter (\<lambda>x. ps_product_uid x = p_uid product) (product_specs (committed s')) =
        map (spec_row (p_uid product)) sp"
    unfolding t1 by (rule own_rows) (simp add: spec_row_def)
  moreover have "filter (\<lambda>x. pp_product_uid x = p_uid product) (product_prices (committed s')) =
        map (price_row (p_uid product)) (filter (\<lambda>rp. truthy (snd rp)) pr)"
    unfolding t2 by (rule own_rows) (simp add: price_row_def)
  moreover have "filter (\<lambda>x. pt_product_uid x = p_uid product) (product_technologies (committed s')) =
        map (technology_row (p_uid product)) te"
    unfolding t3 by (rule own_rows) (simp add: technology_row_def)
  moreover have "filter (\<lambda>x. pf_product_uid x = p_uid product) (product_features (committed s')) =
        map (feature_row (p_uid product)) fe"
    unfolding t4 by (rule own_rows) (simp add: feature_row_def)
  ultimately show ?thesis using e by blast
qed (use up in \<open>simp_all add: update_product_not_dict\<close>)



section \<open>Properties of a run\<close>

lemma set_add_set [simp]: "set (set_add x xs) = insert x (set xs)"
  by (auto simp: set_add_def)

lemma set_add_distinct [simp]: "distinct (set_add x xs) = distinct xs"
  by (auto simp: set_add_def)

lemma set_add_length: "length (set_add x xs) \<le> Suc (length xs)"
  by (simp add: set_add_def)

lemma visit_None:
  "collect_product api url (db r) = (s', None) \<Longrightarrow>
   visit api url r =
     r\<lparr>db := s', product_urls := set_add url (product_urls r),
       detail_calls := detail_calls r @ [url]\<rparr>"
  by (simp add: visit_def)

lemma visit_Some:
  "collect_product api url (db r) = (s', Some u) \<Longrightarrow>
   visit api url r =
     r\<lparr>db := s', product_urls := set_add url (product_urls r),
       detail_calls := detail_calls r @ [url],
       returned_uids := returned_uids r @ [u],
       collected_uids := set_add u (collected_uids r)\<rparr>"
  using collect_product_Some [of api url "db r" s' u] by (simp add: visit_def)

lemma visit_cases:
  obtains (failed) s' where "collect_product api url (db r) = (s', None)"
    "visit api url r =
       r\<lparr>db := s', product_urls := set_add url (product_urls r),
         detail_calls := detail_calls r @ [url]\<rparr>"
  | (collected) s' u where "collect_product api url (db r) = (s', Some u)"
    "visit api url r =
       r\<lparr>db := s', product_urls := set_add url (product_urls r),
         detail_calls := detail_calls r @ [url],
         returned_uids := returned_uids r @ [u],
         collected_uids := set_add u (collected_uids r)\<rparr>"
proof -
  obtain s' res where c: "collect_product api url (db r) = (s', res)"
    by (cases "collect_product api url (db r)")
  show ?thesis
  proof (cases res)
    case None
    with c show ?thesis by (intro failed [of s']) (simp_all add: visit_None)
  next
    case (Some u)
    with c show ?thesis by (intro collected [of s' u]) (simp_all add: visit_Some)
  qed
qed

lemma visit_inv: "run_inv r \<Longrightarrow> url \<notin> set (product_urls r) \<Longrightarrow> run_inv (visit api url r)"
  by (cases api url r rule: visit_cases) (auto simp: run_inv_def)

lemma visit_length:
  "length (collected_uids (visit api url r)) \<le> Suc (length (collected_uids r))"
  by (cases api url r rule: visit_cases) (simp_all add: set_add_length)

lemma product_loop_inv: "run_inv r \<Longrightarrow> run_inv (product_loop api limit pds r)"
  by (induction pds arbitrary: r) (auto simp: visit_inv split: sum.splits)

lemma collect_category_inv: "run_inv r \<Longrightarrow> run_inv (collect_category api limit c r)"
proof -
  assume "run_inv r"
  then have "run_inv (r\<lparr>grid_calls := grid_calls r @ [c]\<rparr>)" by (simp add: run_inv_def)
  then show ?thesis
    by (simp add: collect_category_def Let_def product_loop_inv split: sum.splits)
qed

lemma category_loop_inv: "run_inv r \<Longrightarrow> run_inv (category_loop api limit cs r)"
  by (induction cs arbitrary: r) (simp_all add: collect_category_inv)

lemma start_inv: "run_inv (start s)"
  by (simp add: run_inv_def start_def)

lemma collect_products_inv: "run_inv (collect_products api categories limit s)"
  by (simp add: collect_products_def category_loop_inv start_inv)

lemma product_loop_bound:
  "0 < n \<Longrightarrow> int (length (collected_uids r)) \<le> n \<Longrightarrow>
   int (length (collected_uids (product_loop api (Some n) pds r))) \<le> n"
proof (induction pds arbitrary: r)
  case Nil
  then show ?case by simp
next
  case (Cons pd pds)
  show ?case
  proof (cases "limit_reached (Some n) r")
    case True
    with Cons.prems show ?thesis by simp
  next
    case False
    with Cons.prems have "int (length (collected_uids r)) < n" by (simp add: limit_reached_def)
    then have "int (length (collected_uids (visit api url r))) \<le> n" for url
      using visit_length [of api url r] by linarith
    with False Cons show ?thesis by (auto split: sum.splits)
  qed
qed

lemma collect_category_bound:
  "0 < n \<Longrightarrow> int (length (collected_uids r)) \<le> n \<Longrightarrow>
   int (length (collected_uids (collect_category api (Some n) c r))) \<le> n"
proof -
  assume n: "0 < n" and "int (length (collected_uids r)) \<le> n"
  then have "int (length (collected_uids (r\<lparr>grid_calls := grid_calls r @ [c]\<rparr>))) \<le> n" by simp
  with n show ?thesis
    by (simp add: collect_category_def Let_def product_loop_bound split: sum.splits)
qed

lemma category_loop_bound:
  "0 < n \<Longrightarrow> int (length (collected_uids r)) \<le> n \<Longrightarrow>
   int (length (collected_uids (category_loop api (Some n) cs r))) \<le> n"
  by (induction cs arbitrary: r) (simp_all add: collect_category_bound)

lemma limit_zero: "limit_reached (Some 0) r = limit_reached None r"
  by (simp add: limit_reached_def)

lemma product_loop_zero: "product_loop api (Some 0) pds r = product_loop api None pds r"
  by (induction pds arbitrary: r) (simp_all add: limit_zero split: sum.splits)

lemma collect_category_zero: "collect_category api (Some 0) c r = collect_category api None c r"
  unfolding collect_category_def product_loop_zero by (rule refl)

lemma category_loop_zero: "category_loop api (Some 0) cs r = category_loop api None cs r"
  by (induction cs arbitrary: r) (simp_all add: limit_zero collect_category_zero)

lemma distinct_count_list: "distinct xs \<Longrightarrow> count_list xs x = (if x \<in> set xs then 1 else 0)"
  by (induction xs) auto

text \<open>
  Claim C3. In every run, whatever the catalog answers, no URL is passed to \<^verbatim>\<open>collect_product\<close>
  (the detail fetch and the upsert) more than once, and the returned list holds no uid
  twice: a uid that \<^verbatim>\<open>collect_product\<close> returned during the run is in it exactly once.
\<close>

theorem collect_products_dedup:
  "distinct (detail_calls (collect_products api categories limit s)) \<and>
   count_list (detail_calls (collect_products api categories limit s)) url \<le> 1 \<and>
   distinct (collected_uids (collect_products api categories limit s)) \<and>
   (uid \<in> set (returned_uids (collect_products api categories limit s)) \<longrightarrow>
      count_list (collected_uids (collect_products api categories limit s)) uid = 1)"
proof -
  let ?r = "collect_products api categories limit s"
  have i: "run_inv ?r" by (rule collect_products_inv)
  then have d: "distinct (detail_calls ?r)" and c: "distinct (collected_uids ?r)"
    and e: "set (collected_uids ?r) = set (returned_uids ?r)"
    by (simp_all add: run_inv_def)
  from d have "count_list (detail_calls ?r) url \<le> 1" by (simp add: distinct_count_list)
  moreover from c e have "uid \<in> set (returned_uids ?r) \<longrightarrow> count_list (collected_uids ?r) uid = 1"
    by (simp add: distinct_count_list)
  ultimately show ?thesis using d c by blast
qed

theorem collect_products_dedup_witness:
  "detail_calls (collect_products two_categories (Some [1, 2]) None empty_session) =
     [JStr ''/a'', JStr ''/b''] \<and>
   grid_calls (collect_products two_categories (Some [1, 2]) None empty_session) = [1, 2] \<and>
   JStr ''u1'' \<in> set (returned_uids (collect_products two_categories (Some [1, 2]) None empty_session)) \<and>
   count_list (collected_uids (collect_products two_categories (Some [1, 2]) None empty_session))
     (JStr ''u1'') = 1"
proof -
  let ?r = "collect_products two_categories (Some [1, 2]) None empty_session"
  have a: "detail_calls ?r = [JStr ''/a'', JStr ''/b'']" by code_simp
  have b: "grid_calls ?r = [1, 2]" by code_simp
  have c: "returned_uids ?r = [JStr ''u1'', JStr ''u2'']" by code_simp
  then have m: "JStr ''u1'' \<in> set (returned_uids ?r)" by simp
  with collect_products_dedup [of two_categories "Some [1, 2]" None empty_session _ "JStr ''u1''"]
  have "count_list (collected_uids ?r) (JStr ''u1'') = 1" by blast
  with a b m show ?thesis by blast
qed

lemma limit_stops:
  "limit_reached limit r \<Longrightarrow> product_loop api limit pds r = r \<and> category_loop api limit cs r = r"
  by (cases pds; cases cs) simp_all




section \<open>Root attributes on update, and failed upserts\<close>

lemma remove_tags_id: "\<not> has_tag t \<Longrightarrow> remove_tags t = t"
  by (induction t rule: remove_tags.induct) (auto split: option.splits)

lemma collapse_ws_id: "ws_collapsed t \<Longrightarrow> collapse_ws t = t"
proof (induction t rule: collapse_ws.induct)
  case 1
  then show ?case by simp
next
  case (2 c cs)
  from 2(3) have w: "ws_collapsed cs" by (rule ws_collapsed_tl)
  show ?case
  proof (cases "is_space c")
    case True
    with 2(3) have c: "c = CHR '' ''" and h: "cs = [] \<or> \<not> is_space (hd cs)"
      by (simp_all add: ws_collapsed_Cons)
    from h have d: "dropWhile is_space cs = cs" by (cases cs) auto
    from 2(1) [OF True] w d have "collapse_ws cs = cs" by simp
    with True c d show ?thesis by simp
  next
    case False
    with 2(2) w show ?thesis by simp
  qed
qed

lemma strip_id: "trimmed t \<Longrightarrow> strip t = t"
proof (cases t rule: rev_cases)
  case Nil
  then show ?thesis by (simp add: strip_def)
next
  case (snoc ys y)
  assume "trimmed t"
  with snoc have h: "\<not> is_space (hd t)" and l: "\<not> is_space y" by (simp_all add: trimmed_def)
  from snoc have "t \<noteq> []" by simp
  then obtain z zs where z: "t = z # zs" by (meson list.exhaust)
  with h have "dropWhile is_space t = t" by simp
  moreover from snoc l have "dropWhile is_space (rev t) = rev t" by simp
  ultimately show ?thesis by (simp add: strip_def)
qed

lemma clean_html_id: "\<not> has_tag t \<Longrightarrow> ws_collapsed t \<Longrightarrow> trimmed t \<Longrightarrow> clean_html (JStr t) = Inr t"
  by (simp add: remove_tags_id collapse_ws_id strip_id)

lemma find_map_append:
  "find P xs = Some x \<Longrightarrow> (\<And>q. P (g q) = P q) \<Longrightarrow> find P (map g xs @ ys) = Some (g x)"
  by (induction xs) (auto split: if_splits)

lemma assigned_product:
  "(if p_uid product = p_uid product
    then product\<lparr>p_title := t, p_display_title := dt, p_url := ur,
                 p_description := JStr d, p_tagline := tg\<rparr>
    else product) =
   \<lparr>p_uid = p_uid product, p_title = t, p_display_title = dt, p_url = ur,
    p_description = JStr d, p_tagline = tg\<rparr>"
  by (cases product) simp

lemma update_product_row:
  assumes f: "db_find uid s = Inr (Some product)"
    and i: "insert_children (p_uid product) pd
          (deleted (p_uid product) (assigned product t dt ur d tg s)) = (s', Inr x)"
  shows "db_find uid s' =
     Inr (Some \<lparr>p_uid = uid, p_title = t, p_display_title = dt, p_url = ur,
                p_description = JStr d, p_tagline = tg\<rparr>)"
proof -
  from db_find_Some [OF f] have h: "hashable uid" and u: "p_uid product = uid" by simp_all
  from f have fs: "find (\<lambda>q. p_uid q = uid) (products (txn s)) = Some product"
    by (simp add: db_find_def split: if_splits)
  let ?g = "\<lambda>q. if p_uid q = p_uid product
               then q\<lparr>p_title := t, p_display_title := dt, p_url := ur,
                      p_description := JStr d, p_tagline := tg\<rparr>
               else q"
  from insert_children_ok [OF i]
  have "products (txn s') = map ?g (products (txn s)) @ products (pending s)"
    by (simp add: products_assigned)
  moreover have "find (\<lambda>q. p_uid q = uid) (map ?g (products (txn s)) @ products (pending s)) =
      Some (?g product)"
    using fs by (rule find_map_append) simp
  ultimately have "find (\<lambda>q. p_uid q = uid) (products (txn s')) = Some (?g product)" by simp
  then show ?thesis using h u by (simp add: db_find_def assigned_product [symmetric])
qed

text \<open>
  Claim C10, amended. After an update that returns, the product found under the uid has the
  payload's value in \<^verbatim>\<open>title\<close>, \<^verbatim>\<open>display_title\<close>, \<^verbatim>\<open>url\<close> and \<^verbatim>\<open>tagline\<close> where the payload
  has the key, and the value it had before where the key is absent. The description is
  assigned in either case: the stripped text of the payload's value, or, the key being
  absent, the stripped text of the stored description; this is the stored description
  itself whenever that is a text the stripping leaves alone (no match of the tag pattern,
  whitespace collapsed, trimmed).
\<close>

theorem update_product_root_attributes:
  "db_find uid s = Inr (Some product) \<and>
   update_product product (JDict payload) s = (s', Inr uid') \<longrightarrow>
     (\<exists>description.
        clean_html (case map_of payload ''description'' of
                      None \<Rightarrow> p_description product | Some v \<Rightarrow> v) = Inr description \<and>
        db_find uid s' =
          Inr (Some \<lparr>p_uid = uid,
                     p_title = (case map_of payload ''title'' of
                                  None \<Rightarrow> p_title product | Some v \<Rightarrow> v),
                     p_display_title = (case map_of payload ''display_title'' of
                                  None \<Rightarrow> p_display_title product | Some v \<Rightarrow> v),
                     p_url = (case map_of payload ''url'' of
                                  None \<Rightarrow> p_url product | Some v \<Rightarrow> v),
                     p_description = JStr description,
                     p_tagline = (case map_of payload ''tagline'' of
                                  None \<Rightarrow> p_tagline product | Some v \<Rightarrow> v)\<rparr>) \<and>
        (map_of payload ''description'' = None \<and> p_description product = JStr text \<and>
         \<not> has_tag text \<and> ws_collapsed text \<and> trimmed text \<longrightarrow> description = text))"
proof
  assume a: "db_find uid s = Inr (Some product) \<and>
   update_product product (JDict payload) s = (s', Inr uid')"
  then have f: "db_find uid s = Inr (Some product)"
    and up: "update_product product (JDict payload) s = (s', Inr uid')" by simp_all
  let ?c = "clean_html (case map_of payload ''description'' of
                      None \<Rightarrow> p_description product | Some v \<Rightarrow> v)"
  from update_product_Inr [OF up] obtain d x where
    c: "?c = Inr d" and
    i: "insert_children (p_uid product) (JDict payload)
       (deleted (p_uid product)
          (assigned product
             (case map_of payload ''title'' of None \<Rightarrow> p_title product | Some v \<Rightarrow> v)
             (case map_of payload ''display_title'' of None \<Rightarrow> p_display_title product | Some v \<Rightarrow> v)
             (case map_of payload ''url'' of None \<Rightarrow> p_url product | Some v \<Rightarrow> v)
             d
             (case map_of payload ''tagline'' of None \<Rightarrow> p_tagline product | Some v \<Rightarrow> v) s)) = (s', Inr x)"
    by blast
  have "map_of payload ''description'' = None \<and> p_description product = JStr text \<and>
         \<not> has_tag text \<and> ws_collapsed text \<and> trimmed text \<longrightarrow> d = text"
  proof
    assume h: "map_of payload ''description'' = None \<and> p_description product = JStr text \<and>
         \<not> has_tag text \<and> ws_collapsed text \<and> trimmed text"
    then have "clean_html (JStr text) = Inr text" by (blast intro: clean_html_id)
    with h c show "d = text" by simp
  qed
  with c update_product_row [OF f i] show "\<exists>description.
        ?c = Inr description \<and>
        db_find uid s' =
          Inr (Some \<lparr>p_uid = uid,
                     p_title = (case map_of payload ''title'' of
                                  None \<Rightarrow> p_title product | Some v \<Rightarrow> v),
                     p_display_title = (case map_of payload ''display_title'' of
                                  None \<Rightarrow> p_display_title product | Some v \<Rightarrow> v),
                     p_url = (case map_of payload ''url'' of
                                  None \<Rightarrow> p_url product | Some v \<Rightarrow> v),
                     p_description = JStr description,
                     p_tagline = (case map_of payload ''tagline'' of
                                  None \<Rightarrow> p_tagline product | Some v \<Rightarrow> v)\<rparr>) \<and>
        (map_of payload ''description'' = None \<and> p_description product = JStr text \<and>
         \<not> has_tag text \<and> ws_collapsed text \<and> trimmed text \<longrightarrow> description = text)"
    by blast
qed

text \<open>
  Claim C10, as stated, leaves every attribute whose key is absent unchanged. The
  description is stripped again on every update: a product first fetched with the
  description \<^verbatim>\<open>x<a\<close>, line feed, \<^verbatim>\<open>>y\<close> is stored with \<^verbatim>\<open>x<a >y\<close>; a later payload
  without a description changes the stored one to \<^verbatim>\<open>xy\<close>.
\<close>

theorem update_product_description_counterexample:
  "map p_description (products (committed
     (fst (collect_product first_fetch (JStr ''/a'') empty_session)))) = [JStr ''x<a >y''] \<and>
   map p_description (products (committed
     (fst (collect_product second_fetch (JStr ''/a'')
        (fst (collect_product first_fetch (JStr ''/a'') empty_session)))))) = [JStr ''xy'']"
  by code_simp

theorem update_product_root_attributes_witness:
  "db_find (JStr ''u1'') stored_session = Inr (Some stored_product) \<and>
   snd (update_product stored_product one_spec_payload stored_session) = Inr (JStr ''u1'') \<and>
   \<not> has_tag ''A ski'' \<and> ws_collapsed ''A ski'' \<and> trimmed ''A ski'' \<and>
   db_find (JStr ''u1'') (fst (update_product stored_product one_spec_payload stored_session)) =
     Inr (Some \<lparr>p_uid = JStr ''u1'', p_title = JStr ''Ski A2'', p_display_title = JStr ''Ski A'',
                p_url = JStr ''/a'', p_description = JStr ''A ski'', p_tagline = JStr ''Fast''\<rparr>)"
proof -
  let ?kvs = "[(''uid'', JStr ''u1''), (''title'', JStr ''Ski A2''),
            (''updated_product_specs'',
               JList [JDict [(''id'', JStr ''len''), (''title'', JStr ''Length''),
                             (''value'', JStr ''175cm'')]])]"
  let ?u = "update_product stored_product (JDict ?kvs) stored_session"
  have pl: "one_spec_payload = JDict ?kvs" by (simp add: one_spec_payload_def)
  have f: "db_find (JStr ''u1'') stored_session = Inr (Some stored_product)" by code_simp
  have r: "snd (update_product stored_product one_spec_payload stored_session) = Inr (JStr ''u1'')"
    by code_simp
  then have r': "?u = (fst ?u, Inr (JStr ''u1''))" unfolding pl by (metis prod.collapse)
  have t: "\<not> has_tag ''A ski''" "ws_collapsed ''A ski''" "trimmed ''A ski''"
    by (simp_all add: is_space_def trimmed_def)
  have n: "map_of ?kvs ''description'' = None" "p_description stored_product = JStr ''A ski''"
    "map_of ?kvs ''title'' = Some (JStr ''Ski A2'')" "map_of ?kvs ''display_title'' = None"
    "map_of ?kvs ''url'' = None" "map_of ?kvs ''tagline'' = None"
    by (simp_all add: stored_product_def)
  from update_product_root_attributes [of "JStr ''u1''" stored_session stored_product ?kvs
      "fst ?u" "JStr ''u1''" "''A ski''"] f r' t n(1,2)
  obtain d where d: "d = ''A ski''" and
    "db_find (JStr ''u1'') (fst ?u) =
          Inr (Some \<lparr>p_uid = JStr ''u1'',
                     p_title = (case map_of ?kvs ''title'' of
                                  None \<Rightarrow> p_title stored_product | Some v \<Rightarrow> v),
                     p_display_title = (case map_of ?kvs ''display_title'' of
                                  None \<Rightarrow> p_display_title stored_product | Some v \<Rightarrow> v),
                     p_url = (case map_of ?kvs ''url'' of
                                  None \<Rightarrow> p_url stored_product | Some v \<Rightarrow> v),
                     p_description = JStr d,
                     p_tagline = (case map_of ?kvs ''tagline'' of
                                  None \<Rightarrow> p_tagline stored_product | Some v \<Rightarrow> v)\<rparr>)"
    by blast
  then have "db_find (JStr ''u1'') (fst ?u) =
     Inr (Some \<lparr>p_uid = JStr ''u1'', p_title = JStr ''Ski A2'', p_display_title = JStr ''Ski A'',
                p_url = JStr ''/a'', p_description = JStr ''A ski'', p_tagline = JStr ''Fast''\<rparr>)"
    unfolding n by (simp add: stored_product_def)
  with f r t show ?thesis unfolding pl by blast
qed

lemma filter_other_rows:
  "(\<And>y. k (f y) = u) \<Longrightarrow>
   filter (\<lambda>x. k x \<noteq> u) (filter (\<lambda>x. k x \<noteq> u) xs @ zs @ map f ys) =
   filter (\<lambda>x. k x \<noteq> u) (xs @ zs)"
  by (induction ys) simp_all

lemma filter_other_rows':
  "(\<And>y. k (f y) = u) \<Longrightarrow>
   filter (\<lambda>x. k x \<noteq> u) ((xs @ zs) @ [] @ map f ys) = filter (\<lambda>x. k x \<noteq> u) (xs @ zs)"
  by (induction ys) simp_all

lemma update_product_others:
  assumes up: "update_product product pd s = (s', Inr u)"
  shows "filter (\<lambda>x. ps_product_uid x \<noteq> u) (product_specs (committed s')) =
           filter (\<lambda>x. ps_product_uid x \<noteq> u) (product_specs (txn s) @ product_specs (pending s)) \<and>
         filter (\<lambda>x. pp_product_uid x \<noteq> u) (product_prices (committed s')) =
           filter (\<lambda>x. pp_product_uid x \<noteq> u) (product_prices (txn s) @ product_prices (pending s)) \<and>
         filter (\<lambda>x. pt_product_uid x \<noteq> u) (product_technologies (committed s')) =
           filter (\<lambda>x. pt_product_uid x \<noteq> u)
             (product_technologies (txn s) @ product_technologies (pending s)) \<and>
         filter (\<lambda>x. pf_product_uid x \<noteq> u) (product_features (committed s')) =
           filter (\<lambda>x. pf_product_uid x \<noteq> u) (product_features (txn s) @ product_features (pending s))"
proof (cases pd)
  case (JDict kvs)
  with up update_product_Inr [of product kvs s s' u] obtain d t dt ur tg x where
    i: "insert_children u (JDict kvs) (deleted u (assigned product t dt ur d tg s)) = (s', Inr x)"
    by blast
  from insert_children_tables [OF i] obtain sp pr te fe where
    t1: "product_specs (committed s') =
       filter (\<lambda>x. ps_product_uid x \<noteq> u) (product_specs (txn s)) @ product_specs (pending s) @
         map (spec_row u) sp"
    and t2: "product_prices (committed s') =
       filter (\<lambda>x. pp_product_uid x \<noteq> u) (product_prices (txn s)) @ product_prices (pending s) @
         map (price_row u) (filter (\<lambda>rp. truthy (snd rp)) pr)"
    and t3: "product_technologies (committed s') =
       filter (\<lambda>x. pt_product_uid x \<noteq> u) (product_technologies (txn s)) @
         product_technologies (pending s) @ map (technology_row u) te"
    and t4: "product_features (committed s') =
       filter (\<lambda>x. pf_product_uid x \<noteq> u) (product_features (txn s)) @ product_features (pending s) @
         map (feature_row u) fe"
    unfolding children_deleted children_assigned pending_deleted pending_assigned
    by blast
  have "filter (\<lambda>x. ps_product_uid x \<noteq> u) (product_specs (committed s')) =
           filter (\<lambda>x. ps_product_uid x \<noteq> u) (product_specs (txn s) @ product_specs (pending s))"
    unfolding t1 by (rule filter_other_rows) (simp add: spec_row_def)
  moreover have "filter (\<lambda>x. pp_product_uid x \<noteq> u) (product_prices (committed s')) =
           filter (\<lambda>x. pp_product_uid x \<noteq> u) (product_prices (txn s) @ product_prices (pending s))"
    unfolding t2 by (rule filter_other_rows) (simp add: price_row_def)
  moreover have "filter (\<lambda>x. pt_product_uid x \<noteq> u) (product_technologies (committed s')) =
           filter (\<lambda>x. pt_product_uid x \<noteq> u)
             (product_technologies (txn s) @ product_technologies (pending s))"
    unfolding t3 by (rule filter_other_rows) (simp add: technology_row_def)
  moreover have "filter (\<lambda>x. pf_product_uid x \<noteq> u) (product_features (committed s')) =
           filter (\<lambda>x. pf_product_uid x \<noteq> u) (product_features (txn s) @ product_features (pending s))"
    unfolding t4 by (rule filter_other_rows) (simp add: feature_row_def)
  ultimately show ?thesis by blast
qed (use up in \<open>simp_all add: update_product_not_dict\<close>)

lemma create_product_others:
  assumes cr: "create_product pd s = (s', Inr u)"
  shows "filter (\<lambda>x. ps_product_uid x \<noteq> u) (product_specs (committed s')) =
           filter (\<lambda>x. ps_product_uid x \<noteq> u) (product_specs (txn s) @ product_specs (pending s)) \<and>
         filter (\<lambda>x. pp_product_uid x \<noteq> u) (product_prices (committed s')) =
           filter (\<lambda>x. pp_product_uid x \<noteq> u) (product_prices (txn s) @ product_prices (pending s)) \<and>
         filter (\<lambda>x. pt_product_uid x \<noteq> u) (product_technologies (committed s')) =
           filter (\<lambda>x. pt_product_uid x \<noteq> u)
             (product_technologies (txn s) @ product_technologies (pending s)) \<and>
         filter (\<lambda>x. pf_product_uid x \<noteq> u) (product_features (committed s')) =
           filter (\<lambda>x. pf_product_uid x \<noteq> u) (product_features (txn s) @ product_features (pending s))"
proof (cases pd)
  case (JDict kvs)
  with cr create_product_Inr [of kvs s s' u] obtain p x where
    i: "insert_children u (JDict kvs) (db_flush (db_add_product p s)) = (s', Inr x)"
    by blast
  have fl: "product_specs (txn (db_flush (db_add_product p s))) = product_specs (txn s) @ product_specs (pending s)"
    "product_prices (txn (db_flush (db_add_product p s))) = product_prices (txn s) @ product_prices (pending s)"
    "product_technologies (txn (db_flush (db_add_product p s))) =
       product_technologies (txn s) @ product_technologies (pending s)"
    "product_features (txn (db_flush (db_add_product p s))) =
       product_features (txn s) @ product_features (pending s)"
    "product_specs (pending (db_flush (db_add_product p s))) = []"
    "product_prices (pending (db_flush (db_add_product p s))) = []"
    "product_technologies (pending (db_flush (db_add_product p s))) = []"
    "product_features (pending (db_flush (db_add_product p s))) = []"
    by (simp_all add: db_flush_def db_add_product_def no_rows_def)
  from insert_children_tables [OF i] obtain sp pr te fe where
    t1: "product_specs (committed s') =
       (product_specs (txn s) @ product_specs (pending s)) @ [] @ map (spec_row u) sp"
    and t2: "product_prices (committed s') =
       (product_prices (txn s) @ product_prices (pending s)) @ [] @
         map (price_row u) (filter (\<lambda>rp. truthy (snd rp)) pr)"
    and t3: "product_technologies (committed s') =
       (product_technologies (txn s) @ product_technologies (pending s)) @ [] @
         map (technology_row u) te"
    and t4: "product_features (committed s') =
       (product_features (txn s) @ product_features (pending s)) @ [] @ map (feature_row u) fe"
    unfolding fl by blast
  have "filter (\<lambda>x. ps_product_uid x \<noteq> u) (product_specs (committed s')) =
           filter (\<lambda>x. ps_product_uid x \<noteq> u) (product_specs (txn s) @ product_specs (pending s))"
    unfolding t1 by (rule filter_other_rows') (simp add: spec_row_def)
  moreover have "filter (\<lambda>x. pp_product_uid x \<noteq> u) (product_prices (committed s')) =
           filter (\<lambda>x. pp_product_uid x \<noteq> u) (product_prices (txn s) @ product_prices (pending s))"
    unfolding t2 by (rule filter_other_rows') (simp add: price_row_def)
  moreover have "filter (\<lambda>x. pt_product_uid x \<noteq> u) (product_technologies (committed s')) =
           filter (\<lambda>x. pt_product_uid x \<noteq> u)
             (product_technologies (txn s) @ product_technologies (pending s))"
    unfolding t3 by (rule filter_other_rows') (simp add: technology_row_def)
  moreover have "filter (\<lambda>x. pf_product_uid x \<noteq> u) (product_features (committed s')) =
           filter (\<lambda>x. pf_product_uid x \<noteq> u) (product_features (txn s) @ product_features (pending s))"
    unfolding t4 by (rule filter_other_rows') (simp add: feature_row_def)
  ultimately show ?thesis by blast
qed (use cr in \<open>simp_all add: create_product_not_dict\<close>)

lemma collect_product_others:
  assumes "collect_product api url s = (s', Some u)"
  shows "filter (\<lambda>x. ps_product_uid x \<noteq> u) (product_specs (committed s')) =
           filter (\<lambda>x. ps_product_uid x \<noteq> u) (product_specs (txn s) @ product_specs (pending s)) \<and>
         filter (\<lambda>x. pp_product_uid x \<noteq> u) (product_prices (committed s')) =
           filter (\<lambda>x. pp_product_uid x \<noteq> u) (product_prices (txn s) @ product_prices (pending s)) \<and>
         filter (\<lambda>x. pt_product_uid x \<noteq> u) (product_technologies (committed s')) =
           filter (\<lambda>x. pt_product_uid x \<noteq> u)
             (product_technologies (txn s) @ product_technologies (pending s)) \<and>
         filter (\<lambda>x. pf_product_uid x \<noteq> u) (product_features (committed s')) =
           filter (\<lambda>x. pf_product_uid x \<noteq> u) (product_features (txn s) @ product_features (pending s))"
proof (cases api url s rule: collect_product_cases)
  case skip
  with assms show ?thesis by simp
next
  case (created pd u' s'')
  with assms have "create_product pd s = (s', Inr u)" by simp
  then show ?thesis by (rule create_product_others)
next
  case (create_failed pd u s'' e)
  with assms show ?thesis by simp
next
  case (updated pd u' product s'')
  with assms have "update_product product pd s = (s', Inr u)" by simp
  then show ?thesis by (rule update_product_others)
next
  case (update_failed pd u product s'' e)
  with assms show ?thesis by simp
qed

lemma update_product_fails_at_technologies:
  assumes c: "clean_html (case map_of payload ''description'' of
                 None \<Rightarrow> p_description product | Some v \<Rightarrow> v) = Inr description"
    and sp: "extract_specs (JDict payload) = Inr specs"
    and pr: "extract_prices (JDict payload) = Inr prices"
    and te: "extract_technologies (JDict payload) = Inl e"
  shows "\<exists>s1. update_product product (JDict payload) s = (s1, Inl e) \<and>
       committed s1 = committed s \<and>
       product_specs (txn s1) =
         filter (\<lambda>x. ps_product_uid x \<noteq> p_uid product) (product_specs (txn s)) \<and>
       product_prices (txn s1) =
         filter (\<lambda>x. pp_product_uid x \<noteq> p_uid product) (product_prices (txn s)) \<and>
       product_technologies (txn s1) =
         filter (\<lambda>x. pt_product_uid x \<noteq> p_uid product) (product_technologies (txn s)) \<and>
       product_features (txn s1) =
         filter (\<lambda>x. pf_product_uid x \<noteq> p_uid product) (product_features (txn s)) \<and>
       product_specs (pending s1) =
         product_specs (pending s) @ map (spec_row (p_uid product)) specs \<and>
       product_prices (pending s1) =
         product_prices (pending s) @
           map (price_row (p_uid product)) (filter (\<lambda>rp. truthy (snd rp)) prices)"
proof -
  let ?u = "p_uid product"
  let ?a = "deleted ?u (assigned product
             (case map_of payload ''title'' of None \<Rightarrow> p_title product | Some v \<Rightarrow> v)
             (case map_of payload ''display_title'' of None \<Rightarrow> p_display_title product | Some v \<Rightarrow> v)
             (case map_of payload ''url'' of None \<Rightarrow> p_url product | Some v \<Rightarrow> v)
             description
             (case map_of payload ''tagline'' of None \<Rightarrow> p_tagline product | Some v \<Rightarrow> v) s)"
  let ?s1 = "add_prices ?u prices (add_specs ?u specs ?a)"
  have i: "insert_children ?u (JDict payload) ?a = (?s1, Inl e)"
    by (simp add: insert_children_eq sp pr te)
  have "update_product product (JDict payload) s = (?s1, Inl e)"
    by (simp add: update_product_dict Let_def c i)
  moreover have "committed ?s1 = committed s"
    by (simp add: add_prices_eq add_specs_eq)
  moreover have "product_specs (txn ?s1) = filter (\<lambda>x. ps_product_uid x \<noteq> ?u) (product_specs (txn s))"
    "product_prices (txn ?s1) = filter (\<lambda>x. pp_product_uid x \<noteq> ?u) (product_prices (txn s))"
    "product_technologies (txn ?s1) = filter (\<lambda>x. pt_product_uid x \<noteq> ?u) (product_technologies (txn s))"
    "product_features (txn ?s1) = filter (\<lambda>x. pf_product_uid x \<noteq> ?u) (product_features (txn s))"
    by (simp_all add: add_prices_eq add_specs_eq children_deleted children_assigned)
  moreover have "product_specs (pending ?s1) = product_specs (pending s) @ map (spec_row ?u) specs"
    "product_prices (pending ?s1) =
         product_prices (pending s) @ map (price_row ?u) (filter (\<lambda>rp. truthy (snd rp)) prices)"
    by (simp_all add: add_prices_eq add_specs_eq)
  ultimately show ?thesis by blast
qed




end
